theory Spec2Isabelle
  imports Main "HOL-Library.Word" "HOL-Library.AList"
begin

section \<open>Numbers read from configuration properties\<close>

text \<open>
  Go's \<open>int\<close> is taken at 64 bits (a 64-bit target): a value is a \<open>64 word\<close>, read as
  two's complement by \<open>sint\<close>; \<open>*\<close> wraps around as Go's does.
\<close>

type_synonym go_int = "64 word"

subsection \<open>The host's \<open>strconv.Atoi\<close>\<close>

text \<open>
  \<open>strconv.Atoi s\<close> is \<open>ParseInt s 10 0\<close> converted to \<open>int\<close>. The scan below is the
  library's: an optional sign, then \<open>ParseUint\<close> over the rest, which stops with a syntax
  error (value 0) at the first byte that is no decimal digit and with a range error
  (value \<open>2^64 - 1\<close>) as soon as the accumulated value leaves 64 bits. \<open>ParseInt\<close>
  clamps a magnitude outside the signed range to the nearest bound.
\<close>

datatype NumError = ErrSyntax | ErrRange

definition isDigit :: "char \<Rightarrow> bool" where
  "isDigit d \<longleftrightarrow> 48 \<le> (of_char d :: nat) \<and> (of_char d :: nat) \<le> 57"

definition digitVal :: "char \<Rightarrow> nat" where
  "digitVal d = of_char d - 48"

definition maxUint64 :: nat where
  "maxUint64 = 2 ^ 64 - 1"

fun parseUintLoop :: "nat \<Rightarrow> string \<Rightarrow> nat \<times> NumError option" where
  "parseUintLoop n [] = (n, None)"
| "parseUintLoop n (d # s) =
     (if \<not> isDigit d then (0, Some ErrSyntax)
      else if n \<ge> maxUint64 div 10 + 1 then (maxUint64, Some ErrRange)
      else if n * 10 + digitVal d > maxUint64 then (maxUint64, Some ErrRange)
      else parseUintLoop (n * 10 + digitVal d) s)"

definition ParseUint :: "string \<Rightarrow> nat \<times> NumError option" where
  "ParseUint s = (if length s < 1 then (0, Some ErrSyntax) else parseUintLoop 0 s)"

definition ParseInt :: "string \<Rightarrow> int \<times> NumError option" where
  "ParseInt s0 =
     (if length s0 = 0 then (0, Some ErrSyntax)
      else
        let neg = (hd s0 = CHR ''-'');
            s = (if hd s0 = CHR ''+'' \<or> hd s0 = CHR ''-'' then tl s0 else s0);
            (un, err) = ParseUint s
        in if err = Some ErrSyntax then (0, err)
           else if \<not> neg \<and> un \<ge> 2 ^ 63 then (2 ^ 63 - 1, Some ErrRange)
           else if neg \<and> un > 2 ^ 63 then (- (2 ^ 63), Some ErrRange)
           else (if neg then - int un else int un, None))"

definition Atoi :: "string \<Rightarrow> go_int \<times> NumError option" where
  "Atoi s = (let (i64, err) = ParseInt s in (word_of_int i64, err))"

subsection \<open>\<open>strToNumSuffix\<close>\<close>

text \<open>
  The switch on the last byte falls through from \<open>G\<close> to \<open>M\<close> to \<open>K\<close>, so \<open>num\<close> is
  multiplied three, two or one times and the suffix is cut off in each of the three
  cases; any other last byte leaves \<open>num = 1\<close> and the string whole. The error of
  \<open>Atoi\<close> is dropped.
\<close>

definition suffixSplit :: "string \<Rightarrow> go_int \<Rightarrow> go_int \<times> string" where
  "suffixSplit str mult =
     (if length str > 1 then
        (let c = last str in
         if c = CHR ''G'' \<or> c = CHR ''g'' then (1 * mult * mult * mult, butlast str)
         else if c = CHR ''M'' \<or> c = CHR ''m'' then (1 * mult * mult, butlast str)
         else if c = CHR ''K'' \<or> c = CHR ''k'' then (1 * mult, butlast str)
         else (1, str))
      else (1, str))"

definition strToNumSuffix :: "string \<Rightarrow> go_int \<Rightarrow> go_int" where
  "strToNumSuffix str mult =
     (let (num, str') = suffixSplit str mult;
          parsed = fst (Atoi str')
      in parsed * num)"

subsection \<open>Decimal numerals, as the specification reads them\<close>

text \<open>
  What \<open><integer>\<close> denotes, written independently of the scan above: a non-empty
  run of decimal digits, optionally signed, with its value.
\<close>

definition decimalValue :: "string \<Rightarrow> nat" where
  "decimalValue ds = foldl (\<lambda>n d. n * 10 + digitVal d) 0 ds"

definition natNumeral :: "string \<Rightarrow> int option" where
  "natNumeral ds = (if ds \<noteq> [] \<and> list_all isDigit ds then Some (int (decimalValue ds)) else None)"

definition intNumeral :: "string \<Rightarrow> int option" where
  "intNumeral s =
     (case s of
        [] \<Rightarrow> None
      | c # r \<Rightarrow>
          if c = CHR ''+'' then natNumeral r
          else if c = CHR ''-'' then map_option uminus (natNumeral r)
          else natNumeral s)"

subsection \<open>The value of the numeric part, as the amended specification reads it\<close>

text \<open>
  \<open>unsignedPart\<close> is the string without one leading sign, and \<open>digitRun\<close> the digits it
  starts with. \<open>numeralValue\<close> is what the numeric part of an input stands for: the value
  of a decimal numeral that fits \<open>int\<close>; the largest or the smallest \<open>int\<close> for a numeral
  beyond the range, by its sign; 0 for a string that is no numeral, unless the digits it
  starts with already exceed 64 unsigned bits, which counts as out of range.
\<close>

definition unsignedPart :: "string \<Rightarrow> string" where
  "unsignedPart s =
     (case s of [] \<Rightarrow> [] | c # r \<Rightarrow> if c = CHR ''+'' \<or> c = CHR ''-'' then r else s)"

definition digitRun :: "string \<Rightarrow> string" where
  "digitRun s = takeWhile isDigit (unsignedPart s)"

definition numeralValue :: "string \<Rightarrow> go_int" where
  "numeralValue s =
     (case intNumeral s of
        Some n \<Rightarrow>
          if 2 ^ 63 \<le> n then word_of_int (2 ^ 63 - 1)
          else if n < - (2 ^ 63) then word_of_int (- (2 ^ 63))
          else word_of_int n
      | None \<Rightarrow>
          if decimalValue (digitRun s) \<le> maxUint64 then 0
          else if take 1 s = ''-'' then word_of_int (- (2 ^ 63))
          else word_of_int (2 ^ 63 - 1))"

subsection \<open>\<open>strToNumSuffix\<close> with Go's run-time checks\<close>

text \<open>
  Indexing a string and slicing it are the two operations of \<open>strToNumSuffix\<close> that can
  panic. Here they are with their bounds checks, and the function once more with every
  panic as a result of its own.
\<close>

datatype panic = IndexOutOfRange | SliceOutOfRange

definition byteAt :: "string \<Rightarrow> int \<Rightarrow> panic + char" where
  "byteAt s i = (if 0 \<le> i \<and> i < int (length s) then Inr (s ! nat i) else Inl IndexOutOfRange)"

definition sliceOf :: "string \<Rightarrow> int \<Rightarrow> int \<Rightarrow> panic + string" where
  "sliceOf s lo hi =
     (if 0 \<le> lo \<and> lo \<le> hi \<and> hi \<le> int (length s)
      then Inr (take (nat (hi - lo)) (drop (nat lo) s)) else Inl SliceOutOfRange)"

definition strToNumSuffix_run :: "string \<Rightarrow> go_int \<Rightarrow> panic + go_int" where
  "strToNumSuffix_run str mult =
     (if length str > 1 then
        (case byteAt str (int (length str) - 1) of
           Inl e \<Rightarrow> Inl e
         | Inr c \<Rightarrow>
             if c = CHR ''G'' \<or> c = CHR ''g'' then
               (case sliceOf str 0 (int (length str) - 1) of
                  Inl e \<Rightarrow> Inl e
                | Inr str' \<Rightarrow> Inr (fst (Atoi str') * (1 * mult * mult * mult)))
             else if c = CHR ''M'' \<or> c = CHR ''m'' then
               (case sliceOf str 0 (int (length str) - 1) of
                  Inl e \<Rightarrow> Inl e
                | Inr str' \<Rightarrow> Inr (fst (Atoi str') * (1 * mult * mult)))
             else if c = CHR ''K'' \<or> c = CHR ''k'' then
               (case sliceOf str 0 (int (length str) - 1) of
                  Inl e \<Rightarrow> Inl e
                | Inr str' \<Rightarrow> Inr (fst (Atoi str') * (1 * mult)))
             else Inr (fst (Atoi str) * 1))
      else Inr (fst (Atoi str) * 1))"

section \<open>Levels, filters and the logger\<close>

text \<open>
  \<open>type Level int\<close>: levels are compared as numbers. The declaration of the nine
  constants is not among the sources, so their values are a parameter of everything
  that names one.
\<close>

type_synonym Level = int

record levels =
  FINEST :: Level
  FINE :: Level
  DEBUG :: Level
  TRACE :: Level
  INFO :: Level
  ACCESS :: Level
  WARNING :: Level
  ERROR :: Level
  CRITICAL :: Level

text \<open>
  The writer constructors are not among the sources either. A writer is represented by
  the call that builds it together with the setter calls the loader makes on it:
  \<open>NewFileLogWriter file rotate format maxlines maxsize daily\<close> stands for
  \<open>NewFileLogWriter(file, rotate)\<close> followed by \<open>SetFormat\<close>, \<open>SetRotateLines\<close>,
  \<open>SetRotateSize\<close> and \<open>SetRotateDaily\<close>; \<open>NewXMLLogWriter file rotate maxrecords maxsize
  daily\<close> likewise; \<open>NewSocketLogWriter protocol endpoint\<close>.
\<close>

datatype LogWriter =
    NewConsoleLogWriter
  | NewFileLogWriter string bool string go_int go_int bool
  | NewXMLLogWriter string bool go_int go_int bool
  | NewSocketLogWriter string string

subsection \<open>The parsed configuration file\<close>

record xmlProperty =
  Name :: string
  Value :: string

record xmlFilter =
  Enabled :: string
  Tag :: string
  Level :: string
  Type :: string
  Property :: "xmlProperty list"
  Exclude :: "string list"

text \<open>
  \<open>&Filter{lvl, filt, xmlfilt.Exclude}\<close>: a threshold, a writer (an interface value, so
  possibly nil: \<open>None\<close>) and the exclude patterns. A \<open>Logger\<close> is a Go map from names to
  filters; it is kept as an association list with distinct keys, in the order in which a
  \<open>range\<close> loop happens to visit it.
\<close>

record Filter =
  Level :: Level
  LogWriter :: "LogWriter option"
  Excludes :: "string list"

type_synonym Logger = "(string \<times> Filter) list"

subsection \<open>\<open>isLevelEnabled\<close> and the public level checks\<close>

fun isLevelEnabled :: "Logger \<Rightarrow> Level \<Rightarrow> bool" where
  "isLevelEnabled [] lvl = False"
| "isLevelEnabled ((name, filt) # rest) lvl =
     (if lvl \<ge> Filter.Level filt then True else isLevelEnabled rest lvl)"

definition IsFinestEnabled :: "levels \<Rightarrow> Logger \<Rightarrow> bool" where
  "IsFinestEnabled L Global = isLevelEnabled Global (FINEST L)"

definition IsFineEnabled :: "levels \<Rightarrow> Logger \<Rightarrow> bool" where
  "IsFineEnabled L Global = isLevelEnabled Global (FINE L)"

definition IsDebugEnabled :: "levels \<Rightarrow> Logger \<Rightarrow> bool" where
  "IsDebugEnabled L Global = isLevelEnabled Global (DEBUG L)"

definition IsTraceEnabled :: "levels \<Rightarrow> Logger \<Rightarrow> bool" where
  "IsTraceEnabled L Global = isLevelEnabled Global (TRACE L)"

definition IsInfoEnabled :: "levels \<Rightarrow> Logger \<Rightarrow> bool" where
  "IsInfoEnabled L Global = isLevelEnabled Global (INFO L)"

definition IsWarnEnabled :: "levels \<Rightarrow> Logger \<Rightarrow> bool" where
  "IsWarnEnabled L Global = isLevelEnabled Global (WARNING L)"

definition IsErrorEnabled :: "levels \<Rightarrow> Logger \<Rightarrow> bool" where
  "IsErrorEnabled L Global = isLevelEnabled Global (ERROR L)"

section \<open>Loading a configuration\<close>

text \<open>
  What the loader prints and does to its surroundings, in order. The texts of the
  messages are kept as their format's arguments; \<open>Warning\<close> and \<open>Error\<close> are the words
  the messages start with.
\<close>

datatype message =
    CouldNotOpen string
  | CouldNotRead string
  | CouldNotParse string
  | MissingAttribute string string
  | MissingChild string string
  | UnknownValue string string string
  | UnknownFilterType string string
  | UnknownProperty string string string
  | MissingProperty string string string

datatype effect =
    Stdout_Load string
  | Stderr_Error message
  | Stderr_Warning message
  | MkdirAll string
  | WriterClosed "LogWriter option"

subsection \<open>\<open>convertLevel\<close>\<close>

text \<open>
  The named results start at their zero values: an unknown name gives level 0 and
  \<open>bad = true\<close>, after the message.
\<close>

definition convertLevel :: "levels \<Rightarrow> string \<Rightarrow> string \<Rightarrow> effect list \<times> Level \<times> bool" where
  "convertLevel L level filename =
     (if level = ''ACCESS'' then ([], ACCESS L, False)
      else if level = ''FINEST'' then ([], FINEST L, False)
      else if level = ''FINE'' then ([], FINE L, False)
      else if level = ''DEBUG'' then ([], DEBUG L, False)
      else if level = ''TRACE'' then ([], TRACE L, False)
      else if level = ''INFO'' then ([], INFO L, False)
      else if level = ''WARNING'' then ([], WARNING L, False)
      else if level = ''ERROR'' then ([], ERROR L, False)
      else if level = ''CRITICAL'' then ([], CRITICAL L, False)
      else ([Stderr_Error (UnknownValue ''level'' filename level)], 0, True))"

subsection \<open>The writers' property parsers\<close>

text \<open>\<open>strings.Trim s cutset\<close> drops the leading and the trailing bytes that are in the cutset.\<close>

definition Trim :: "string \<Rightarrow> string \<Rightarrow> string" where
  "Trim s cutset =
     rev (dropWhile (\<lambda>c. c \<in> set cutset) (rev (dropWhile (\<lambda>c. c \<in> set cutset) s)))"

definition blanks :: string where
  "blanks = [CHR '' '', CHR 0x0D, CHR 0x0A]"

text \<open>
  The file system and the executable's place, as the loader asks for them:
  \<open>JoinExeDir v\<close> is \<open>filepath.Join(filepath.Dir(abspath), v)\<close> for the path of the running
  executable, \<open>Dir\<close> is \<open>filepath.Dir\<close>, and \<open>NotExist p\<close> says that \<open>os.Stat p\<close> fails with
  a does-not-exist error.
\<close>

record host_fs =
  JoinExeDir :: "string \<Rightarrow> string"
  Dir :: "string \<Rightarrow> string"
  NotExist :: "string \<Rightarrow> bool"

definition consoleProperty :: "string \<Rightarrow> effect list \<Rightarrow> xmlProperty \<Rightarrow> effect list" where
  "consoleProperty filename out prop =
     out @ [Stderr_Warning (UnknownProperty (Name prop) ''console'' filename)]"

definition xmlToConsoleLogWriter ::
  "string \<Rightarrow> string list \<Rightarrow> xmlProperty list \<Rightarrow> bool \<Rightarrow> effect list \<times> LogWriter option \<times> bool" where
  "xmlToConsoleLogWriter filename excludes props enabled =
     (let out = foldl (consoleProperty filename) [] props
      in if \<not> enabled then (out, None, True)
         else (out, Some NewConsoleLogWriter, True))"

record file_vars =
  file' :: string
  format :: string
  maxlines :: go_int
  maxsize :: go_int
  daily :: bool
  rotate :: bool

definition fileProperty ::
  "host_fs \<Rightarrow> string \<Rightarrow> file_vars \<times> effect list \<Rightarrow> xmlProperty \<Rightarrow> file_vars \<times> effect list" where
  "fileProperty fs filename st prop =
     (let (v, out) = st in
      if Name prop = ''filename'' then
        (let f = JoinExeDir fs (Trim (Value prop) blanks)
         in (v\<lparr>file' := f\<rparr>, if NotExist fs (Dir fs f) then out @ [MkdirAll (Dir fs f)] else out))
      else if Name prop = ''format'' then (v\<lparr>format := Trim (Value prop) blanks\<rparr>, out)
      else if Name prop = ''maxlines'' then
        (v\<lparr>maxlines := strToNumSuffix (Trim (Value prop) blanks) 1000\<rparr>, out)
      else if Name prop = ''maxsize'' then
        (v\<lparr>maxsize := strToNumSuffix (Trim (Value prop) blanks) 1024\<rparr>, out)
      else if Name prop = ''daily'' then (v\<lparr>daily := (Trim (Value prop) blanks \<noteq> ''false'')\<rparr>, out)
      else if Name prop = ''rotate'' then (v\<lparr>rotate := (Trim (Value prop) blanks \<noteq> ''false'')\<rparr>, out)
      else (v, out @ [Stderr_Warning (UnknownProperty (Name prop) ''file'' filename)]))"

definition xmlToFileLogWriter ::
  "host_fs \<Rightarrow> string \<Rightarrow> string list \<Rightarrow> xmlProperty list \<Rightarrow> bool
     \<Rightarrow> effect list \<times> LogWriter option \<times> bool" where
  "xmlToFileLogWriter fs filename excludes props enabled =
     (let (v, out) = foldl (fileProperty fs filename)
            (\<lparr>file' = '''', format = ''[%D %T] [%L] (%S) %M'', maxlines = 0, maxsize = 0,
              daily = False, rotate = False\<rparr>, []) props
      in if length (file' v) = 0 then
           (out @ [Stderr_Error (MissingProperty ''filename'' ''file'' filename)], None, False)
         else if \<not> enabled then (out, None, True)
         else (out,
               Some (NewFileLogWriter (file' v) (rotate v) (format v) (maxlines v) (maxsize v) (daily v)),
               True))"

record xml_vars =
  xfile :: string
  maxrecords :: go_int
  xmaxsize :: go_int
  xdaily :: bool
  xrotate :: bool

definition xmlProperty_step ::
  "host_fs \<Rightarrow> string \<Rightarrow> xml_vars \<times> effect list \<Rightarrow> xmlProperty \<Rightarrow> xml_vars \<times> effect list" where
  "xmlProperty_step fs filename st prop =
     (let (v, out) = st in
      if Name prop = ''filename'' then (v\<lparr>xfile := JoinExeDir fs (Trim (Value prop) blanks)\<rparr>, out)
      else if Name prop = ''maxrecords'' then
        (v\<lparr>maxrecords := strToNumSuffix (Trim (Value prop) blanks) 1000\<rparr>, out)
      else if Name prop = ''maxsize'' then
        (v\<lparr>xmaxsize := strToNumSuffix (Trim (Value prop) blanks) 1024\<rparr>, out)
      else if Name prop = ''daily'' then (v\<lparr>xdaily := (Trim (Value prop) blanks \<noteq> ''false'')\<rparr>, out)
      else if Name prop = ''rotate'' then (v\<lparr>xrotate := (Trim (Value prop) blanks \<noteq> ''false'')\<rparr>, out)
      else (v, out @ [Stderr_Warning (UnknownProperty (Name prop) ''xml'' filename)]))"

definition xmlToXMLLogWriter ::
  "host_fs \<Rightarrow> string \<Rightarrow> string list \<Rightarrow> xmlProperty list \<Rightarrow> bool
     \<Rightarrow> effect list \<times> LogWriter option \<times> bool" where
  "xmlToXMLLogWriter fs filename excludes props enabled =
     (let (v, out) = foldl (xmlProperty_step fs filename)
            (\<lparr>xfile = '''', maxrecords = 0, xmaxsize = 0, xdaily = False, xrotate = False\<rparr>, []) props
      in if length (xfile v) = 0 then
           (out @ [Stderr_Error (MissingProperty ''filename'' ''xml'' filename)], None, False)
         else if \<not> enabled then (out, None, True)
         else (out, Some (NewXMLLogWriter (xfile v) (xrotate v) (maxrecords v) (xmaxsize v) (xdaily v)),
               True))"

text \<open>The socket parser's messages say \<open>file filter\<close>, as the source's do.\<close>

definition socketProperty ::
  "string \<Rightarrow> (string \<times> string) \<times> effect list \<Rightarrow> xmlProperty \<Rightarrow> (string \<times> string) \<times> effect list" where
  "socketProperty filename st prop =
     (let ((endpoint, protocol), out) = st in
      if Name prop = ''endpoint'' then ((Trim (Value prop) blanks, protocol), out)
      else if Name prop = ''protocol'' then ((endpoint, Trim (Value prop) blanks), out)
      else ((endpoint, protocol), out @ [Stderr_Warning (UnknownProperty (Name prop) ''file'' filename)]))"

definition xmlToSocketLogWriter ::
  "string \<Rightarrow> string list \<Rightarrow> xmlProperty list \<Rightarrow> bool \<Rightarrow> effect list \<times> LogWriter option \<times> bool" where
  "xmlToSocketLogWriter filename exclude props enabled =
     (let ((endpoint, protocol), out) = foldl (socketProperty filename) (('''', ''udp''), []) props
      in if length endpoint = 0 then
           (out @ [Stderr_Error (MissingProperty ''endpoint'' ''file'' filename)], None, False)
         else if \<not> enabled then (out, None, True)
         else (out, Some (NewSocketLogWriter protocol endpoint), True))"

subsection \<open>The receiver of the loader\<close>

text \<open>
  \<open>LoadConfiguration\<close> and \<open>Close\<close> are methods of a \<open>Logger\<close> value, which is a Go map
  and so either nil (\<open>None\<close>: what \<open>var l Logger\<close> declares) or a map with its entries
  (\<open>Some\<close>). Ranging over the nil map visits nothing and deleting from it does nothing;
  assigning to an entry of it panics.
\<close>

type_synonym LoggerValue = "Logger option"

subsection \<open>\<open>Logger.Close\<close>\<close>

text \<open>
  Modelled from the spec: \<open>Logger.Close\<close> is not among the sources. The specification
  says that it calls \<open>close()\<close> on every writer (writers are 1:1 with filters), then
  empties the filter mapping, and that it tolerates a logger with no filters.
\<close>

definition Close :: "LoggerValue \<Rightarrow> effect list \<times> LoggerValue" where
  "Close log =
     (case log of
        None \<Rightarrow> ([], None)
      | Some entries \<Rightarrow> (map (\<lambda>(name, filt). WriterClosed (LogWriter filt)) entries, Some []))"

subsection \<open>\<open>LoadConfiguration\<close>\<close>

text \<open>
  Opening, reading and parsing the file are the host's; the loader is given how far they
  got. A call ends with \<open>os.Exit\<close>, with a run-time panic, or returns with the logger as
  it then is.
\<close>

datatype config_source = OpenFails | ReadFails | ParseFails | Parsed "xmlFilter list"

datatype outcome = Exit nat | Panics | Returns LoggerValue

text \<open>
  The body of the loop over the \<open><filter>\<close> elements, in its three parts. First the
  checks of the required children: each prints its message and sets \<open>bad\<close>, and
  \<open>enabled\<close> is read from the attribute when it is there.
\<close>

definition requiredChildren :: "string \<Rightarrow> xmlFilter \<Rightarrow> effect list \<times> bool \<times> bool" where
  "requiredChildren filename xmlfilt =
     ((if length (Enabled xmlfilt) = 0
       then [Stderr_Error (MissingAttribute ''enabled'' filename)] else [])
      @ (if length (Tag xmlfilt) = 0 then [Stderr_Error (MissingChild ''tag'' filename)] else [])
      @ (if length (Type xmlfilt) = 0 then [Stderr_Error (MissingChild ''type'' filename)] else [])
      @ (if length (xmlFilter.Level xmlfilt) = 0
         then [Stderr_Error (MissingChild ''level'' filename)] else []),
      length (Enabled xmlfilt) = 0 \<or> length (Tag xmlfilt) = 0 \<or> length (Type xmlfilt) = 0
        \<or> length (xmlFilter.Level xmlfilt) = 0,
      (if length (Enabled xmlfilt) = 0 then False else Enabled xmlfilt \<noteq> ''false''))"

text \<open>The \<open>switch xmlfilt.Type\<close>; \<open>None\<close> is its default branch.\<close>

definition switchType ::
  "host_fs \<Rightarrow> string \<Rightarrow> xmlFilter \<Rightarrow> bool \<Rightarrow> (effect list \<times> LogWriter option \<times> bool) option" where
  "switchType fs filename xmlfilt enabled =
     (if Type xmlfilt = ''console'' then
        Some (xmlToConsoleLogWriter filename (Exclude xmlfilt) (Property xmlfilt) enabled)
      else if Type xmlfilt = ''file'' then
        Some (xmlToFileLogWriter fs filename (Exclude xmlfilt) (Property xmlfilt) enabled)
      else if Type xmlfilt = ''xml'' then
        Some (xmlToXMLLogWriter fs filename (Exclude xmlfilt) (Property xmlfilt) enabled)
      else if Type xmlfilt = ''socket'' then
        Some (xmlToSocketLogWriter filename (Exclude xmlfilt) (Property xmlfilt) enabled)
      else None)"

text \<open>
  \<open>log[xmlfilt.Tag] = &Filter{...}\<close>: a panic on the nil map, otherwise the entry is
  set, replacing one of the same name.
\<close>

definition assignEntry :: "LoggerValue \<Rightarrow> string \<Rightarrow> Filter \<Rightarrow> outcome" where
  "assignEntry log tag filt =
     (case log of
        None \<Rightarrow> Panics
      | Some entries \<Rightarrow> Returns (Some (AList.update tag filt entries)))"

text \<open>
  The whole body. The assignment \<open>lvl, bad = convertLevel(...)\<close> gives \<open>bad\<close> a new
  value, so the flag set by the checks before it (\<open>bad0\<close>) is never read and only the
  level decides the first exit.
\<close>

definition loadFilter ::
  "levels \<Rightarrow> host_fs \<Rightarrow> string \<Rightarrow> LoggerValue \<Rightarrow> xmlFilter \<Rightarrow> effect list \<times> outcome" where
  "loadFilter L fs filename log xmlfilt =
     (let (out0, bad0, enabled) = requiredChildren filename xmlfilt;
          (out1, lvl, bad) = convertLevel L (xmlFilter.Level xmlfilt) filename;
          out = out0 @ out1
      in if bad then (out, Exit 1)
         else
           (case switchType fs filename xmlfilt enabled of
              None \<Rightarrow>
                (out @ [Stderr_Error (UnknownFilterType filename (Type xmlfilt))], Exit 1)
            | Some (outw, filt, good) \<Rightarrow>
                if \<not> good then (out @ outw, Exit 1)
                else if \<not> enabled then (out @ outw, Returns log)
                else (out @ outw,
                      assignEntry log (Tag xmlfilt)
                        \<lparr>Level = lvl, LogWriter = filt, Excludes = Exclude xmlfilt\<rparr>)))"

fun loadFilters ::
  "levels \<Rightarrow> host_fs \<Rightarrow> string \<Rightarrow> LoggerValue \<Rightarrow> xmlFilter list \<Rightarrow> effect list \<times> outcome" where
  "loadFilters L fs filename log [] = ([], Returns log)"
| "loadFilters L fs filename log (xmlfilt # rest) =
     (case loadFilter L fs filename log xmlfilt of
        (out, Exit code) \<Rightarrow> (out, Exit code)
      | (out, Panics) \<Rightarrow> (out, Panics)
      | (out, Returns log') \<Rightarrow>
          (let (out', r) = loadFilters L fs filename log' rest in (out @ out', r)))"

definition LoadConfiguration ::
  "levels \<Rightarrow> host_fs \<Rightarrow> LoggerValue \<Rightarrow> string \<Rightarrow> config_source \<Rightarrow> effect list \<times> outcome" where
  "LoadConfiguration L fs log filename src =
     (let (closed, log0) = Close log;
          out0 = Stdout_Load filename # closed
      in case src of
           OpenFails \<Rightarrow> (out0 @ [Stderr_Error (CouldNotOpen filename)], Exit 1)
         | ReadFails \<Rightarrow> (out0 @ [Stderr_Error (CouldNotRead filename)], Exit 1)
         | ParseFails \<Rightarrow> (out0 @ [Stderr_Error (CouldNotParse filename)], Exit 1)
         | Parsed filters \<Rightarrow>
             (let (out, r) = loadFilters L fs filename log0 filters in (out0 @ out, r)))"

subsection \<open>What a configuration declares\<close>

text \<open>
  What a \<open><filter>\<close> element declares: an entry under its tag, with its excludes and
  the level its name converts to, provided the element is enabled.
\<close>

definition declares :: "levels \<Rightarrow> string \<Rightarrow> xmlFilter \<Rightarrow> string \<times> Filter \<Rightarrow> bool" where
  "declares L filename x e \<longleftrightarrow>
     Tag x = fst e \<and> Enabled x \<noteq> [] \<and> Enabled x \<noteq> ''false''
     \<and> Excludes (snd e) = Exclude x
     \<and> convertLevel L (xmlFilter.Level x) filename = ([], Filter.Level (snd e), False)"

section \<open>A host for the examples\<close>

text \<open>
  Modelled from the spec: the declaration of the level constants is not among the
  sources. The specification orders them FINEST < FINE < DEBUG < TRACE < INFO < ACCESS <
  WARNING < ERROR < CRITICAL; the examples number them from 0 in that order.
\<close>

definition specLevels :: levels where
  "specLevels = \<lparr>FINEST = 0, FINE = 1, DEBUG = 2, TRACE = 3, INFO = 4, ACCESS = 5,
     WARNING = 6, ERROR = 7, CRITICAL = 8\<rparr>"

text \<open>
  An executable in \<open>/opt/app\<close> on a file system where every directory asked for exists.
  The examples only join clean relative names (no empty, \<open>.\<close> or \<open>..\<close> element), for
  which \<open>filepath.Join\<close> puts one separator between the two parts and returns the
  directory alone when the name is empty; \<open>exampleDir\<close> is \<open>filepath.Dir\<close> on the clean
  absolute paths that result: everything before the last separator, or the root.
\<close>

definition exampleDir :: "string \<Rightarrow> string" where
  "exampleDir p =
     (let d = rev (drop 1 (dropWhile (\<lambda>c. c \<noteq> CHR ''/'') (rev p)))
      in if d = [] then ''/'' else d)"

definition exampleFs :: host_fs where
  "exampleFs = \<lparr>JoinExeDir = (\<lambda>v. if v = [] then ''/opt/app'' else ''/opt/app/'' @ v),
     Dir = exampleDir, NotExist = (\<lambda>p. False)\<rparr>"

section \<open>The convenience entry points\<close>

text \<open>
  The first argument of an entry point is an \<open>interface{}\<close> that the type switch sorts
  into a string, a \<open>func() string\<close>, a \<open>func(interface{}) string\<close> (a case of its own in
  \<open>Critical\<close> only) and anything else. \<open>'v\<close> is the type of the other Go values that
  are passed along and formatted.
\<close>

datatype 'v arg =
    ArgString string
  | ArgFunc0 "unit \<Rightarrow> string"
  | ArgFunc1 "'v \<Rightarrow> string"
  | ArgOther 'v

text \<open>
  What the entry points use of the host: \<open>fmt.Sprintf\<close>, \<open>fmt.Sprint\<close> of the first
  argument, the conversion of a string to an \<open>interface{}\<close> operand (\<open>box\<close>), and
  \<open>CallStack\<close> of the stack package, which returns the trace at the call site for a
  given depth.
\<close>

record 'v host =
  Sprintf :: "string \<Rightarrow> 'v list \<Rightarrow> string"
  Sprint :: "'v arg \<Rightarrow> string"
  box :: "string \<Rightarrow> 'v"
  CallStack :: "nat \<Rightarrow> string"

text \<open>
  \<open>Global.intLogf\<close> and \<open>Global.intLogc\<close> are not among the sources. An entry point is
  modelled by what it does itself, in order: the closures it invokes, the stack traces
  it captures and the calls it makes to the two methods, with their arguments.
\<close>

datatype 'v call =
    Invoke0
  | Invoke1 'v
  | CallStack_call nat
  | intLogf_call Level string "'v list"
  | intLogc_call Level "unit \<Rightarrow> string"

datatype 'a go_result = Panic | Result 'a

definition Repeat :: "string \<Rightarrow> nat \<Rightarrow> string" where
  "Repeat s count = concat (replicate count s)"

definition newline :: string where
  "newline = [CHR 0x0A]"

text \<open>The format \<open>"%s\n%s"\<close>.\<close>

definition format_s_newline_s :: string where
  "format_s_newline_s = ''%s'' @ newline @ ''%s''"

definition Finest :: "'v host \<Rightarrow> levels \<Rightarrow> 'v arg \<Rightarrow> 'v list \<Rightarrow> 'v call list" where
  "Finest H L arg0 args =
     (case arg0 of
        ArgString first \<Rightarrow> [intLogf_call (FINEST L) first args]
      | ArgFunc0 first \<Rightarrow> [intLogc_call (FINEST L) first]
      | _ \<Rightarrow> [intLogf_call (FINEST L) (Sprint H arg0 @ Repeat '' %v'' (length args)) args])"

definition Fine :: "'v host \<Rightarrow> levels \<Rightarrow> 'v arg \<Rightarrow> 'v list \<Rightarrow> 'v call list" where
  "Fine H L arg0 args =
     (case arg0 of
        ArgString first \<Rightarrow> [intLogf_call (FINE L) first args]
      | ArgFunc0 first \<Rightarrow> [intLogc_call (FINE L) first]
      | _ \<Rightarrow> [intLogf_call (FINE L) (Sprint H arg0 @ Repeat '' %v'' (length args)) args])"

definition Debug :: "'v host \<Rightarrow> levels \<Rightarrow> 'v arg \<Rightarrow> 'v list \<Rightarrow> 'v call list" where
  "Debug H L arg0 args =
     (case arg0 of
        ArgString first \<Rightarrow> [intLogf_call (DEBUG L) first args]
      | ArgFunc0 first \<Rightarrow> [intLogc_call (DEBUG L) first]
      | _ \<Rightarrow> [intLogf_call (DEBUG L) (Sprint H arg0 @ Repeat '' %v'' (length args)) args])"

definition Trace :: "'v host \<Rightarrow> levels \<Rightarrow> 'v arg \<Rightarrow> 'v list \<Rightarrow> 'v call list" where
  "Trace H L arg0 args =
     (case arg0 of
        ArgString first \<Rightarrow> [intLogf_call (TRACE L) first args]
      | ArgFunc0 first \<Rightarrow> [intLogc_call (TRACE L) first]
      | _ \<Rightarrow> [intLogf_call (TRACE L) (Sprint H arg0 @ Repeat '' %v'' (length args)) args])"

definition Info :: "'v host \<Rightarrow> levels \<Rightarrow> 'v arg \<Rightarrow> 'v list \<Rightarrow> 'v call list" where
  "Info H L arg0 args =
     (case arg0 of
        ArgString first \<Rightarrow> [intLogf_call (INFO L) first args]
      | ArgFunc0 first \<Rightarrow> [intLogc_call (INFO L) first]
      | _ \<Rightarrow> [intLogf_call (INFO L) (Sprint H arg0 @ Repeat '' %v'' (length args)) args])"

definition Access :: "'v host \<Rightarrow> levels \<Rightarrow> 'v arg \<Rightarrow> 'v list \<Rightarrow> 'v call list" where
  "Access H L arg0 args =
     (case arg0 of
        ArgString first \<Rightarrow> [intLogf_call (ACCESS L) first args]
      | ArgFunc0 first \<Rightarrow> [intLogc_call (ACCESS L) first]
      | _ \<Rightarrow> [intLogf_call (ACCESS L) (Sprint H arg0 @ Repeat '' %v'' (length args)) args])"

text \<open>
  \<open>Warn\<close>, \<open>Error\<close> and \<open>Critical\<close> also return an error: \<open>Some\<close> of its text, \<open>None\<close>
  for nil. The \<open>return nil\<close> after the switch is never reached, since every case
  returns. A closure is invoked by the entry point itself and its result is passed on to
  \<open>intLogf\<close> as the operand of \<open>"%s"\<close>.
\<close>

definition Warn :: "'v host \<Rightarrow> levels \<Rightarrow> 'v arg \<Rightarrow> 'v list \<Rightarrow> 'v call list \<times> string option" where
  "Warn H L arg0 args =
     (case arg0 of
        ArgString first \<Rightarrow>
          ([intLogf_call (WARNING L) first args], Some (Sprintf H first args))
      | ArgFunc0 first \<Rightarrow>
          (let str = first ()
           in ([Invoke0, intLogf_call (WARNING L) ''%s'' [box H str]], Some str))
      | _ \<Rightarrow>
          ([intLogf_call (WARNING L) (Sprint H arg0 @ Repeat '' %v'' (length args)) args],
           Some (Sprint H arg0 @ Sprintf H (Repeat '' %v'' (length args)) args)))"

definition Error :: "'v host \<Rightarrow> levels \<Rightarrow> 'v arg \<Rightarrow> 'v list \<Rightarrow> 'v call list \<times> string option" where
  "Error H L arg0 args =
     (case arg0 of
        ArgString first \<Rightarrow>
          ([intLogf_call (ERROR L) first args], Some (Sprintf H first args))
      | ArgFunc0 first \<Rightarrow>
          (let str = first ()
           in ([Invoke0, intLogf_call (ERROR L) ''%s'' [box H str]], Some str))
      | _ \<Rightarrow>
          ([intLogf_call (ERROR L) (Sprint H arg0 @ Repeat '' %v'' (length args)) args],
           Some (Sprint H arg0 @ Sprintf H (Repeat '' %v'' (length args)) args)))"

text \<open>
  \<open>Critical\<close> builds the message with the stack trace itself in the string and the
  default case and hands it to \<open>intLogf\<close> as the format, with no operands; in the two
  closure cases it hands over the format \<open>"%s\n%s"\<close> with the closure's result and the
  trace as operands. \<open>args[0]\<close> panics when there is no further argument.
\<close>

definition Critical ::
  "'v host \<Rightarrow> levels \<Rightarrow> 'v arg \<Rightarrow> 'v list \<Rightarrow> 'v call list \<times> string option go_result" where
  "Critical H L arg0 args =
     (case arg0 of
        ArgString first \<Rightarrow>
          (let msg = Sprintf H format_s_newline_s
                       [box H (Sprintf H first args), box H (CallStack H 3)]
           in ([CallStack_call 3, intLogf_call (CRITICAL L) msg []],
               Result (Some (Sprintf H first args))))
      | ArgFunc0 first \<Rightarrow>
          (let str = first ()
           in ([Invoke0, CallStack_call 3,
                intLogf_call (CRITICAL L) format_s_newline_s [box H str, box H (CallStack H 3)]],
               Result (Some str)))
      | ArgFunc1 first \<Rightarrow>
          (case args of
             [] \<Rightarrow> ([], Panic)
           | a # rest \<Rightarrow>
               (let str = first a
                in ([Invoke1 a, CallStack_call 3,
                     intLogf_call (CRITICAL L) format_s_newline_s
                       [box H str, box H (CallStack H 3)]],
                    Result (Some str))))
      | ArgOther v \<Rightarrow>
          (let msg = Sprintf H format_s_newline_s
                       [box H (Sprint H arg0 @ Sprintf H (Repeat '' %v'' (length args)) args),
                        box H (CallStack H 3)]
           in ([CallStack_call 3, intLogf_call (CRITICAL L) msg []],
               Result (Some (Sprint H arg0 @ Sprintf H (Repeat '' %v'' (length args)) args)))))"

section \<open>The logger behind the entry points\<close>

text \<open>
  Modelled from the spec: the file that declares \<open>LogRecord\<close>, \<open>Log\<close>, \<open>intLogf\<close> and
  \<open>intLogc\<close> is not among the sources. The specification's record has a level, a
  creation time, a source tag and a message; the fields carry the prefix \<open>rec\<close>.
\<close>

record LogRecord =
  rec_level :: Level
  rec_created :: nat
  rec_source :: string
  rec_message :: string

text \<open>
  What the logger asks of its surroundings: whether an exclude pattern matches a source
  tag, the source tag of the caller, and the time.
\<close>

record runtime =
  Match :: "string \<Rightarrow> string \<Rightarrow> bool"
  Caller :: string
  Now :: nat

text \<open>
  Modelled from the spec: a record is accepted by a filter iff \<open>record.level >=
  threshold\<close> and no pattern in \<open>excludes\<close> matches \<open>record.source\<close>. The excludes are
  gone through one by one.
\<close>

fun excluded :: "runtime \<Rightarrow> string list \<Rightarrow> string \<Rightarrow> bool" where
  "excluded R [] src = False"
| "excluded R (pattern # rest) src = (if Match R pattern src then True else excluded R rest src)"

definition accepts :: "runtime \<Rightarrow> Filter \<Rightarrow> LogRecord \<Rightarrow> bool" where
  "accepts R filt rec \<longleftrightarrow> rec_level rec \<ge> Filter.Level filt \<and> \<not> excluded R (Excludes filt) (rec_source rec)"

text \<open>What reaches the writers and what runs on the way.\<close>

datatype event = ClosureRun | Written string LogRecord

text \<open>
  Modelled from the spec: \<open>Log\<close> calls \<open>writer.accept(record)\<close> for every filter whose
  threshold is satisfied and whose excludes do not match the source; all filters are
  evaluated.
\<close>

fun dispatch :: "runtime \<Rightarrow> Logger \<Rightarrow> LogRecord \<Rightarrow> event list" where
  "dispatch R [] rec = []"
| "dispatch R ((name, filt) # rest) rec =
     (if accepts R filt rec then Written name rec # dispatch R rest rec else dispatch R rest rec)"

text \<open>
  Modelled from the spec: \<open>Logf\<close> is \<open>Log\<close> with the message produced by formatting
  \<open>format\<close> with \<open>args\<close>, once.
\<close>

definition intLogf :: "'v host \<Rightarrow> runtime \<Rightarrow> Logger \<Rightarrow> Level \<Rightarrow> string \<Rightarrow> 'v list \<Rightarrow> event list" where
  "intLogf H R log lvl fmt args =
     dispatch R log \<lparr>rec_level = lvl, rec_created = Now R, rec_source = Caller R, rec_message = Sprintf H fmt args\<rparr>"

text \<open>
  Modelled from the spec: \<open>Logc\<close> invokes the closure at most once, and only if at least
  one filter's threshold would accept the level; if none does, the closure is not called
  at all.
\<close>

definition intLogc :: "runtime \<Rightarrow> Logger \<Rightarrow> Level \<Rightarrow> (unit \<Rightarrow> string) \<Rightarrow> event list" where
  "intLogc R log lvl closure =
     (if list_ex (\<lambda>(name, filt). Filter.Level filt \<le> lvl) log
      then ClosureRun #
           dispatch R log \<lparr>rec_level = lvl, rec_created = Now R, rec_source = Caller R, rec_message = closure ()\<rparr>
      else [])"

text \<open>A run of an entry point against a logger: each of its steps with what it brings about.\<close>

fun perform :: "'v host \<Rightarrow> runtime \<Rightarrow> Logger \<Rightarrow> 'v call \<Rightarrow> event list" where
  "perform H R log Invoke0 = [ClosureRun]"
| "perform H R log (Invoke1 a) = [ClosureRun]"
| "perform H R log (CallStack_call depth) = []"
| "perform H R log (intLogf_call lvl fmt args) = intLogf H R log lvl fmt args"
| "perform H R log (intLogc_call lvl closure) = intLogc R log lvl closure"

definition run :: "'v host \<Rightarrow> runtime \<Rightarrow> Logger \<Rightarrow> 'v call list \<Rightarrow> event list" where
  "run H R log calls = concat (map (perform H R log) calls)"

definition closureRuns :: "event list \<Rightarrow> nat" where
  "closureRuns events = length (filter (\<lambda>e. e = ClosureRun) events)"

definition stackCaptures :: "'v call list \<Rightarrow> nat list" where
  "stackCaptures calls = concat (map (\<lambda>c. case c of CallStack_call depth \<Rightarrow> [depth] | _ \<Rightarrow> []) calls)"

section \<open>A formatter for the examples\<close>

text \<open>
  The examples pass strings and error values. \<open>exampleSprintf\<close> is the fragment of
  \<open>fmt.Sprintf\<close> they use: the verbs \<open>%s\<close> and \<open>%v\<close>, which print a string as it is
  and an error value by its text, and \<open>%%\<close>; a verb that finds no operand left prints
  \<open>%!v(MISSING)\<close> (with its own letter), a \<open>%\<close> at the end of the format prints
  \<open>%!(NOVERB)\<close>, and operands that are left over are listed after \<open>%!(EXTRA\<close>.
  Flags, widths and the other verbs are outside the fragment: any other letter is
  printed the way Go prints a verb that does not fit its operand.
\<close>

datatype gvalue = GoString string | GoError string

fun gtext :: "gvalue \<Rightarrow> string" where
  "gtext (GoString s) = s"
| "gtext (GoError s) = s"

fun gtyped :: "gvalue \<Rightarrow> string" where
  "gtyped (GoString s) = ''string='' @ s"
| "gtyped (GoError s) = ''*errors.errorString=&{'' @ s @ ''}''"

fun extras :: "gvalue list \<Rightarrow> string" where
  "extras [] = []"
| "extras [a] = gtyped a"
| "extras (a # b # rest) = gtyped a @ '', '' @ extras (b # rest)"

fun exampleSprintf :: "string \<Rightarrow> gvalue list \<Rightarrow> string" where
  "exampleSprintf [] args = (if args = [] then [] else ''%!(EXTRA '' @ extras args @ '')'')"
| "exampleSprintf [c] args =
     (if c = CHR ''%'' then ''%!(NOVERB)'' @ exampleSprintf [] args
      else c # exampleSprintf [] args)"
| "exampleSprintf (c # d # fmt) args =
     (if c \<noteq> CHR ''%'' then c # exampleSprintf (d # fmt) args
      else if d = CHR ''%'' then CHR ''%'' # exampleSprintf fmt args
      else
        (case args of
           [] \<Rightarrow> ''%!'' @ [d] @ ''(MISSING)'' @ exampleSprintf fmt []
         | a # rest \<Rightarrow>
             if d = CHR ''s'' \<or> d = CHR ''v'' then gtext a @ exampleSprintf fmt rest
             else ''%!'' @ [d] @ ''('' @ gtyped a @ '')'' @ exampleSprintf fmt rest))"

text \<open>\<open>fmt.Sprint\<close> of one value; a function value prints as its address.\<close>

fun exampleSprint :: "gvalue arg \<Rightarrow> string" where
  "exampleSprint (ArgString s) = s"
| "exampleSprint (ArgOther v) = gtext v"
| "exampleSprint (ArgFunc0 f) = ''0x47b0e0''"
| "exampleSprint (ArgFunc1 f) = ''0x47b1a0''"

definition exampleHost :: "gvalue host" where
  "exampleHost = \<lparr>Sprintf = exampleSprintf, Sprint = exampleSprint, box = GoString,
     CallStack = (\<lambda>depth. ''main.main()'')\<rparr>"

text \<open>In the examples a pattern matches the sources that start with it.\<close>

definition exampleRuntime :: runtime where
  "exampleRuntime = \<lparr>Match = (\<lambda>pattern src. take (length pattern) src = pattern),
     Caller = ''main.main:12'', Now = 0\<rparr>"

section \<open>Properties of the number parser\<close>

lemma foldl_dec_mono: "n \<le> foldl (\<lambda>n d. n * 10 + digitVal d) n ds"
proof (induction ds arbitrary: n)
  case Nil show ?case by simp
next
  case (Cons d ds)
  have "n \<le> n * 10 + digitVal d" by simp
  also have "\<dots> \<le> foldl (\<lambda>n d. n * 10 + digitVal d) (n * 10 + digitVal d) ds" by (rule Cons.IH)
  finally show ?case by simp
qed

lemma parseUintLoop_digits:
  "list_all isDigit ds \<Longrightarrow> foldl (\<lambda>n d. n * 10 + digitVal d) n ds \<le> maxUint64
   \<Longrightarrow> parseUintLoop n ds = (foldl (\<lambda>n d. n * 10 + digitVal d) n ds, None)"
proof (induction ds arbitrary: n)
  case Nil show ?case by simp
next
  case (Cons d ds)
  let ?n1 = "n * 10 + digitVal d"
  have le: "?n1 \<le> maxUint64"
    using foldl_dec_mono [of ?n1 ds] Cons.prems(2) by simp
  then have "n < maxUint64 div 10 + 1" by (simp add: maxUint64_def)
  with le Cons show ?case by simp
qed

lemma ParseUint_digits:
  "ds \<noteq> [] \<Longrightarrow> list_all isDigit ds \<Longrightarrow> decimalValue ds \<le> maxUint64
   \<Longrightarrow> ParseUint ds = (decimalValue ds, None)"
  by (cases ds) (simp_all add: ParseUint_def decimalValue_def parseUintLoop_digits del: parseUintLoop.simps)

lemma isDigit_not_sign: "isDigit c \<Longrightarrow> c \<noteq> CHR ''+'' \<and> c \<noteq> CHR ''-''"
  by (auto simp: isDigit_def)

lemma ParseInt_numeral:
  assumes "intNumeral s = Some n" and "- (2 ^ 63) \<le> n" and "n < 2 ^ 63"
  shows "ParseInt s = (n, None)"
proof (cases s)
  case Nil with assms show ?thesis by (simp add: intNumeral_def)
next
  case (Cons c r)
  show ?thesis
  proof (cases "c = CHR ''+''")
    case True
    with Cons assms have r: "r \<noteq> []" "list_all isDigit r" "n = int (decimalValue r)"
      by (auto simp: intNumeral_def natNumeral_def split: if_splits)
    with assms have "decimalValue r < 2 ^ 63" by simp
    then have "ParseUint r = (decimalValue r, None)"
      using r by (intro ParseUint_digits) (simp_all add: maxUint64_def)
    with Cons True r \<open>decimalValue r < 2 ^ 63\<close> show ?thesis
      by (simp add: ParseInt_def)
  next
    case notplus: False
    show ?thesis
    proof (cases "c = CHR ''-''")
      case True
      with Cons assms have r: "r \<noteq> []" "list_all isDigit r" "n = - int (decimalValue r)"
        by (auto simp: intNumeral_def natNumeral_def split: if_splits)
      with assms have b: "decimalValue r \<le> 2 ^ 63" by simp
      then have "ParseUint r = (decimalValue r, None)"
        using r by (intro ParseUint_digits) (simp_all add: maxUint64_def)
      with Cons True r b show ?thesis
        by (simp add: ParseInt_def)
    next
      case False
      with notplus Cons assms have r: "list_all isDigit s" "n = int (decimalValue s)"
        by (auto simp: intNumeral_def natNumeral_def split: if_splits)
      with assms have b: "decimalValue s < 2 ^ 63" by simp
      then have "ParseUint s = (decimalValue s, None)"
        using r Cons by (intro ParseUint_digits) (simp_all add: maxUint64_def)
      with Cons False notplus r b show ?thesis
        by (simp add: ParseInt_def)
    qed
  qed
qed

lemma Atoi_numeral:
  "intNumeral s = Some n \<Longrightarrow> - (2 ^ 63) \<le> n \<Longrightarrow> n < 2 ^ 63 \<Longrightarrow> Atoi s = (word_of_int n, None)"
  by (simp add: Atoi_def ParseInt_numeral)


lemma parseUintLoop_bad:
  "\<not> list_all isDigit s \<Longrightarrow> n < 10 ^ k \<Longrightarrow> k + length s \<le> 20
   \<Longrightarrow> parseUintLoop n s = (0, Some ErrSyntax)"
proof (induction s arbitrary: n k)
  case Nil then show ?case by simp
next
  case (Cons d r)
  show ?case
  proof (cases "isDigit d")
    case False then show ?thesis by simp
  next
    case True
    with Cons.prems have bad: "\<not> list_all isDigit r" by simp
    then have "r \<noteq> []" by auto
    then have "1 \<le> length r" by (cases r) simp_all
    with Cons.prems have k: "k \<le> 18" by simp
    have "(10::nat) ^ k \<le> 10 ^ 18" using k by (intro power_increasing) simp_all
    with Cons.prems have n: "n < 10 ^ 18" by simp
    have dv: "digitVal d \<le> 9" using True unfolding isDigit_def digitVal_def by linarith
    have n1: "n * 10 + digitVal d < 10 ^ Suc k" using Cons.prems(2) dv by simp
    have "parseUintLoop (n * 10 + digitVal d) r = (0, Some ErrSyntax)"
      using bad n1 Cons.prems(3) by (intro Cons.IH [where k = "Suc k"]) simp_all
    moreover have "\<not> n \<ge> maxUint64 div 10 + 1" using n by (simp add: maxUint64_def)
    moreover have "\<not> n * 10 + digitVal d > maxUint64" using n dv by (simp add: maxUint64_def)
    ultimately show ?thesis using True by simp
  qed
qed

lemma ParseUint_bad:
  "natNumeral s = None \<Longrightarrow> length s \<le> 20 \<Longrightarrow> ParseUint s = (0, Some ErrSyntax)"
proof (cases "s = []")
  case True then show ?thesis by (simp add: ParseUint_def)
next
  case False
  assume "natNumeral s = None" and len: "length s \<le> 20"
  with False have "\<not> list_all isDigit s" by (simp add: natNumeral_def split: if_splits)
  then have "parseUintLoop 0 s = (0, Some ErrSyntax)"
    using len by (intro parseUintLoop_bad [where k = 0]) simp_all
  with False show ?thesis by (simp add: ParseUint_def)
qed

lemma ParseInt_bad:
  assumes "intNumeral s = None" and "length s \<le> 20"
  shows "ParseInt s = (0, Some ErrSyntax)"
proof (cases s)
  case Nil then show ?thesis by (simp add: ParseInt_def)
next
  case (Cons c r)
  show ?thesis
  proof (cases "c = CHR ''+'' \<or> c = CHR ''-''")
    case True
    with Cons assms have "natNumeral r = None" "length r \<le> 20"
      by (auto simp: intNumeral_def split: if_splits)
    then have "ParseUint r = (0, Some ErrSyntax)" by (rule ParseUint_bad)
    with Cons True show ?thesis by (auto simp: ParseInt_def)
  next
    case False
    with Cons assms have "natNumeral s = None" by (simp add: intNumeral_def)
    then have "ParseUint s = (0, Some ErrSyntax)" using assms(2) by (rule ParseUint_bad)
    with Cons False show ?thesis by (simp add: ParseInt_def)
  qed
qed

lemma Atoi_bad:
  "intNumeral s = None \<Longrightarrow> length s \<le> 20 \<Longrightarrow> Atoi s = (0, Some ErrSyntax)"
  by (simp add: Atoi_def ParseInt_bad)

lemma intNumeral_last_digit:
  assumes "intNumeral s = Some n" shows "s \<noteq> [] \<and> isDigit (last s)"
proof -
  have nat: "natNumeral r = Some m \<Longrightarrow> r \<noteq> [] \<and> isDigit (last r)" for r m
    by (auto simp: natNumeral_def list_all_iff split: if_splits)
  show ?thesis
  proof (cases s)
    case Nil with assms show ?thesis by (simp add: intNumeral_def)
  next
    case (Cons c r)
    with assms nat [of r] nat [of s] show ?thesis
      by (auto simp: intNumeral_def split: if_splits)
  qed
qed

lemma isDigit_not_suffix:
  "isDigit c \<Longrightarrow> c \<noteq> CHR ''G'' \<and> c \<noteq> CHR ''g'' \<and> c \<noteq> CHR ''M'' \<and> c \<noteq> CHR ''m''
     \<and> c \<noteq> CHR ''K'' \<and> c \<noteq> CHR ''k''"
  by (auto simp: isDigit_def)

lemma suffixSplit_numeral:
  "intNumeral s = Some n \<Longrightarrow> suffixSplit s mult = (1, s)"
  using intNumeral_last_digit [of s n] isDigit_not_suffix [of "last s"]
  by (simp add: suffixSplit_def Let_def)

lemma suffixSplit_snoc:
  assumes "s \<noteq> []"
  shows "suffixSplit (s @ [c]) mult =
     (if c = CHR ''G'' \<or> c = CHR ''g'' then (mult * mult * mult, s)
      else if c = CHR ''M'' \<or> c = CHR ''m'' then (mult * mult, s)
      else if c = CHR ''K'' \<or> c = CHR ''k'' then (mult, s)
      else (1, s @ [c]))"
proof -
  have "length (s @ [c]) > 1" using assms by (cases s) simp_all
  then show ?thesis by (simp add: suffixSplit_def Let_def)
qed


lemmas parser_defs = strToNumSuffix_def suffixSplit_def Atoi_def ParseInt_def ParseUint_def
  isDigit_def digitVal_def maxUint64_def Let_def

lemma strToNumSuffix_one_byte:
  "length str < 2 \<Longrightarrow> suffixSplit str mult = (1, str) \<and> strToNumSuffix str mult = fst (Atoi str)"
  by (simp add: strToNumSuffix_def suffixSplit_def)

lemma suffixSplit_cut:
  assumes "snd (suffixSplit str mult) \<noteq> str"
  shows "2 \<le> length str \<and> snd (suffixSplit str mult) = butlast str \<and> butlast str \<noteq> []"
proof -
  from assms have len: "1 < length str"
    by (auto simp: suffixSplit_def split: if_splits)
  then obtain a b r where "str = a # b # r" by (cases str; cases "tl str") auto
  then have "butlast str \<noteq> []" by simp
  moreover from assms have "snd (suffixSplit str mult) = butlast str"
    by (auto simp: suffixSplit_def Let_def split: if_splits)
  ultimately show ?thesis using len by simp
qed

text \<open>
  C10. A suffix letter is interpreted only in a string of at least two bytes: a shorter
  string is parsed whole with multiplier 1, and whenever a suffix is cut off the part
  left for \<open>Atoi\<close> is the string without its last byte and is not empty. The one-byte
  inputs \<open>K\<close>, \<open>M\<close> and \<open>G\<close> give 0, not the multiplier.
\<close>

theorem strToNumSuffix_suffix_needs_prefix:
  "(length str < 2 \<longrightarrow> suffixSplit str mult = (1, str) \<and> strToNumSuffix str mult = fst (Atoi str))
   \<and> (snd (suffixSplit str mult) \<noteq> str \<longrightarrow>
        2 \<le> length str \<and> snd (suffixSplit str mult) = butlast str \<and> butlast str \<noteq> [])
   \<and> strToNumSuffix ''K'' mult = 0 \<and> strToNumSuffix ''M'' mult = 0 \<and> strToNumSuffix ''G'' mult = 0"
proof -
  have "strToNumSuffix ''K'' mult = 0" by (simp add: parser_defs)
  moreover have "strToNumSuffix ''M'' mult = 0" by (simp add: parser_defs)
  moreover have "strToNumSuffix ''G'' mult = 0" by (simp add: parser_defs)
  ultimately show ?thesis
    using strToNumSuffix_one_byte [of str mult] suffixSplit_cut [of str mult] by blast
qed

theorem strToNumSuffix_suffix_needs_prefix_witness:
  "length ''K'' < 2 \<and> suffixSplit ''K'' 1000 = (1, ''K'')
   \<and> snd (suffixSplit ''10K'' 1000) \<noteq> ''10K'' \<and> snd (suffixSplit ''10K'' 1000) = ''10''
   \<and> strToNumSuffix ''K'' 1000 = 0"
  using strToNumSuffix_suffix_needs_prefix [of "''K''" 1000]
    strToNumSuffix_suffix_needs_prefix [of "''10K''" 1000]
  by (simp add: suffixSplit_def)

section \<open>The number parser against the amended specification\<close>

lemma parseUintLoop_scan:
  "n \<le> maxUint64 \<Longrightarrow>
   parseUintLoop n s =
     (if foldl (\<lambda>n d. n * 10 + digitVal d) n (takeWhile isDigit s) > maxUint64
      then (maxUint64, Some ErrRange)
      else if takeWhile isDigit s = s
        then (foldl (\<lambda>n d. n * 10 + digitVal d) n (takeWhile isDigit s), None)
        else (0, Some ErrSyntax))"
proof (induction s arbitrary: n)
  case Nil then show ?case by simp
next
  case (Cons d r)
  show ?case
  proof (cases "isDigit d")
    case False
    with Cons.prems show ?thesis by simp
  next
    case True
    let ?n1 = "n * 10 + digitVal d"
    let ?v = "foldl (\<lambda>n d. n * 10 + digitVal d) ?n1 (takeWhile isDigit r)"
    have mono: "?n1 \<le> ?v" by (rule foldl_dec_mono)
    show ?thesis
    proof (cases "n \<ge> maxUint64 div 10 + 1")
      case big: True
      then have "?n1 > maxUint64" by (simp add: maxUint64_def)
      with mono have "?v > maxUint64" by simp
      with True big show ?thesis by simp
    next
      case small: False
      show ?thesis
      proof (cases "?n1 > maxUint64")
        case over: True
        with mono have "?v > maxUint64" by simp
        with True small over show ?thesis by simp
      next
        case False
        then have le: "?n1 \<le> maxUint64" by simp
        from Cons.IH [OF le] True small False show ?thesis by simp
      qed
    qed
  qed
qed

lemma ParseUint_scan:
  "ParseUint s =
     (if s = [] then (0, Some ErrSyntax)
      else if decimalValue (takeWhile isDigit s) > maxUint64 then (maxUint64, Some ErrRange)
      else if takeWhile isDigit s = s then (decimalValue s, None)
      else (0, Some ErrSyntax))"
proof (cases "s = []")
  case True then show ?thesis by (simp add: ParseUint_def)
next
  case False
  have "(0::nat) \<le> maxUint64" by simp
  from parseUintLoop_scan [OF this, of s] False show ?thesis
    by (cases s) (auto simp: ParseUint_def decimalValue_def simp del: parseUintLoop.simps)
qed

lemma two63_le_int: "(2 ^ 63 \<le> m) = ((2::int) ^ 63 \<le> int m)" for m :: nat
proof -
  have "int (2 ^ 63) = (2::int) ^ 63" by simp
  then show ?thesis by (metis of_nat_le_iff)
qed

lemma two63_less_int: "(2 ^ 63 < m) = ((2::int) ^ 63 < int m)" for m :: nat
proof -
  have "int (2 ^ 63) = (2::int) ^ 63" by simp
  then show ?thesis by (metis of_nat_less_iff)
qed

lemma ParseInt_unsignedPart:
  assumes "s \<noteq> []" and "ParseUint (unsignedPart s) = (un, err)"
  shows "ParseInt s =
     (if err = Some ErrSyntax then (0, err)
      else if hd s \<noteq> CHR ''-'' \<and> 2 ^ 63 \<le> int un then (2 ^ 63 - 1, Some ErrRange)
      else if hd s = CHR ''-'' \<and> 2 ^ 63 < int un then (- (2 ^ 63), Some ErrRange)
      else (if hd s = CHR ''-'' then - int un else int un, None))"
proof (cases s)
  case Nil with assms show ?thesis by simp
next
  case (Cons c r)
  consider (plus) "c = CHR ''+''" | (minus) "c = CHR ''-''"
    | (other) "c \<noteq> CHR ''+''" "c \<noteq> CHR ''-''" by blast
  then show ?thesis
  proof cases
    case plus
    with Cons assms(2) have "ParseUint r = (un, err)" by (simp add: unsignedPart_def)
    with Cons plus show ?thesis
      by (simp add: ParseInt_def two63_le_int two63_less_int)
  next
    case minus
    with Cons assms(2) have "ParseUint r = (un, err)" by (simp add: unsignedPart_def)
    with Cons minus show ?thesis
      by (simp add: ParseInt_def two63_le_int two63_less_int)
  next
    case other
    with Cons assms(2) have "ParseUint (c # r) = (un, err)" by (simp add: unsignedPart_def)
    with Cons other show ?thesis
      by (simp add: ParseInt_def two63_le_int two63_less_int)
  qed
qed

lemma natNumeral_takeWhile:
  "natNumeral t = (if t \<noteq> [] \<and> takeWhile isDigit t = t then Some (int (decimalValue t)) else None)"
  by (simp add: natNumeral_def list_all_iff)

lemma intNumeral_unsignedPart:
  "intNumeral s =
     (if unsignedPart s \<noteq> [] \<and> takeWhile isDigit (unsignedPart s) = unsignedPart s
      then Some (if take 1 s = ''-'' then - int (decimalValue (unsignedPart s))
                 else int (decimalValue (unsignedPart s)))
      else None)"
proof (cases s)
  case Nil then show ?thesis by (simp add: intNumeral_def unsignedPart_def)
next
  case (Cons c r)
  consider (plus) "c = CHR ''+''" | (minus) "c = CHR ''-''"
    | (other) "c \<noteq> CHR ''+''" "c \<noteq> CHR ''-''" by blast
  then show ?thesis
  proof cases
    case plus
    then have "intNumeral s = natNumeral r" "unsignedPart s = r" "take 1 s \<noteq> ''-''"
      using Cons by (simp_all add: intNumeral_def unsignedPart_def)
    then show ?thesis by (simp only: natNumeral_takeWhile if_False)
  next
    case minus
    then have "intNumeral s = map_option uminus (natNumeral r)" "unsignedPart s = r"
      "take 1 s = ''-''"
      using Cons by (simp_all add: intNumeral_def unsignedPart_def)
    then show ?thesis by (simp only: natNumeral_takeWhile if_True) simp
  next
    case other
    then have "intNumeral s = natNumeral s" "unsignedPart s = s" "take 1 s \<noteq> ''-''"
      using Cons by (simp_all add: intNumeral_def unsignedPart_def)
    then show ?thesis by (simp only: natNumeral_takeWhile if_False)
  qed
qed

lemma Atoi_numeralValue: "fst (Atoi s) = numeralValue s"
proof (cases "s = []")
  case True
  then show ?thesis
    by (simp add: Atoi_def ParseInt_def numeralValue_def intNumeral_def digitRun_def
        unsignedPart_def decimalValue_def)
next
  case ne: False
  let ?u = "unsignedPart s"
  let ?v = "decimalValue (takeWhile isDigit ?u)"
  have neg: "(take (Suc 0) s = ''-'') = (hd s = CHR ''-'')" using ne by (cases s) simp_all
  have atoi: "fst (Atoi s) = word_of_int (fst (ParseInt s))"
    by (simp add: Atoi_def split_beta)
  show ?thesis
  proof (cases "?u = []")
    case True
    then have "ParseUint ?u = (0, Some ErrSyntax)" by (simp add: ParseUint_scan)
    from ParseInt_unsignedPart [OF ne this] have "fst (ParseInt s) = 0" by simp
    moreover from True have "intNumeral s = None" by (simp add: intNumeral_unsignedPart)
    moreover from True have "decimalValue (digitRun s) = 0"
      by (simp add: digitRun_def decimalValue_def)
    ultimately show ?thesis by (simp add: atoi numeralValue_def)
  next
    case une: False
    show ?thesis
    proof (cases "?v > maxUint64")
      case True
      then have "ParseUint ?u = (maxUint64, Some ErrRange)"
        using une by (simp add: ParseUint_scan)
      from ParseInt_unsignedPart [OF ne this]
      have pi: "fst (ParseInt s) = (if hd s = CHR ''-'' then - (2 ^ 63) else 2 ^ 63 - 1)"
        by (simp add: maxUint64_def)
      from True have "2 ^ 63 < ?v" by (simp add: maxUint64_def)
      then have vbig: "(2::int) ^ 63 < int ?v" by (simp only: two63_less_int)
      show ?thesis
      proof (cases "takeWhile isDigit ?u = ?u")
        case all: True
        with une have "intNumeral s =
            Some (if hd s = CHR ''-'' then - int (decimalValue ?u) else int (decimalValue ?u))"
          by (simp add: intNumeral_unsignedPart neg del: takeWhile_eq_all_conv)
        moreover from vbig all have "(2::int) ^ 63 < int (decimalValue ?u)" by simp
        ultimately show ?thesis by (simp add: atoi pi numeralValue_def)
      next
        case False
        with une have "intNumeral s = None"
          by (simp add: intNumeral_unsignedPart del: takeWhile_eq_all_conv)
        with True show ?thesis by (simp add: atoi pi numeralValue_def digitRun_def neg)
      qed
    next
      case small: False
      show ?thesis
      proof (cases "takeWhile isDigit ?u = ?u")
        case False
        then have "ParseUint ?u = (0, Some ErrSyntax)"
          using une small by (simp add: ParseUint_scan del: takeWhile_eq_all_conv)
        from ParseInt_unsignedPart [OF ne this] have "fst (ParseInt s) = 0" by simp
        moreover from False une have "intNumeral s = None"
          by (simp add: intNumeral_unsignedPart del: takeWhile_eq_all_conv)
        ultimately show ?thesis using small by (simp add: atoi numeralValue_def digitRun_def)
      next
        case all: True
        then have "ParseUint ?u = (decimalValue ?u, None)"
          using une small by (simp add: ParseUint_scan del: takeWhile_eq_all_conv)
        from ParseInt_unsignedPart [OF ne this]
        have pi: "fst (ParseInt s) =
            (if hd s \<noteq> CHR ''-'' \<and> 2 ^ 63 \<le> int (decimalValue ?u) then 2 ^ 63 - 1
             else if hd s = CHR ''-'' \<and> 2 ^ 63 < int (decimalValue ?u) then - (2 ^ 63)
             else if hd s = CHR ''-'' then - int (decimalValue ?u) else int (decimalValue ?u))"
          by simp
        from all une have inum: "intNumeral s =
            Some (if hd s = CHR ''-'' then - int (decimalValue ?u) else int (decimalValue ?u))"
          by (simp add: intNumeral_unsignedPart neg del: takeWhile_eq_all_conv)
        have nonneg: "0 \<le> int (decimalValue ?u)" by simp
        show ?thesis
        proof (cases "hd s = CHR ''-''")
          case True
          with pi inum nonneg show ?thesis by (simp add: atoi numeralValue_def)
        next
          case False
          with pi inum nonneg show ?thesis by (simp add: atoi numeralValue_def)
        qed
      qed
    qed
  qed
qed

lemma strToNumSuffix_run_total:
  "strToNumSuffix_run str mult = Inr (strToNumSuffix str mult)"
proof (cases "length str > 1")
  case False
  then show ?thesis by (simp add: strToNumSuffix_run_def strToNumSuffix_def suffixSplit_def)
next
  case True
  then have ne: "str \<noteq> []" by auto
  have pos: "nat (int (length str) - 1) = length str - 1" by simp
  have inb: "0 \<le> int (length str) - 1 \<and> int (length str) - 1 < int (length str)"
    "(0::int) \<le> 0 \<and> 0 \<le> int (length str) - 1 \<and> int (length str) - 1 \<le> int (length str)"
    using True by (intro conjI; linarith)+
  have "last str = str ! (length str - 1)" using ne by (rule last_conv_nth)
  then have idx: "byteAt str (int (length str) - 1) = Inr (last str)"
    unfolding byteAt_def by (simp only: inb pos) simp
  have "butlast str = take (length str - 1) str" by (rule butlast_conv_take)
  then have sl: "sliceOf str 0 (int (length str) - 1) = Inr (butlast str)"
    unfolding sliceOf_def by (simp only: inb) (simp add: pos)
  show ?thesis
    using True
    by (simp add: strToNumSuffix_run_def strToNumSuffix_def suffixSplit_def idx sl Let_def)
qed

lemma strToNumSuffix_suffixed:
  assumes "t \<noteq> []"
  shows "strToNumSuffix (t @ ''K'') mult = numeralValue t * mult"
    "strToNumSuffix (t @ ''k'') mult = numeralValue t * mult"
    "strToNumSuffix (t @ ''M'') mult = numeralValue t * (mult * mult)"
    "strToNumSuffix (t @ ''m'') mult = numeralValue t * (mult * mult)"
    "strToNumSuffix (t @ ''G'') mult = numeralValue t * (mult * mult * mult)"
    "strToNumSuffix (t @ ''g'') mult = numeralValue t * (mult * mult * mult)"
  by (simp_all add: strToNumSuffix_def suffixSplit_snoc [OF assms] Atoi_numeralValue)

lemma strToNumSuffix_bare:
  assumes "length str < 2 \<or> last str \<notin> {CHR ''K'', CHR ''k'', CHR ''M'', CHR ''m'', CHR ''G'', CHR ''g''}"
  shows "strToNumSuffix str mult = numeralValue str"
proof -
  from assms have "suffixSplit str mult = (1, str)"
    by (auto simp: suffixSplit_def Let_def)
  then show ?thesis by (simp add: strToNumSuffix_def Atoi_numeralValue)
qed

lemma sint_clamped:
  "sint (word_of_int (2 ^ 63 - 1) :: go_int) = 2 ^ 63 - 1"
  "sint (word_of_int (- (2 ^ 63)) :: go_int) = - (2 ^ 63)"
  "- (2 ^ 63) \<le> n \<Longrightarrow> n < 2 ^ 63 \<Longrightarrow> sint (word_of_int n :: go_int) = n"
  by (simp_all add: signed_of_int signed_take_bit_int_eq_self)

lemma numeralValue_in_range:
  assumes "intNumeral s = Some n" "- (2 ^ 63) \<le> n" "n < 2 ^ 63"
  shows "numeralValue s = word_of_int n \<and> sint (numeralValue s) = n"
proof -
  from assms have "numeralValue s = word_of_int n" by (simp add: numeralValue_def)
  with assms sint_clamped(3) [of n] show ?thesis by simp
qed

lemma numeralValue_above:
  assumes "intNumeral s = Some n" "2 ^ 63 \<le> n"
  shows "sint (numeralValue s) = 2 ^ 63 - 1"
proof -
  from assms have "numeralValue s = word_of_int (2 ^ 63 - 1)" by (simp add: numeralValue_def)
  then show ?thesis by (simp only: sint_clamped)
qed

lemma numeralValue_below:
  assumes "intNumeral s = Some n" "n < - (2 ^ 63)"
  shows "sint (numeralValue s) = - (2 ^ 63)"
proof -
  from assms have "numeralValue s = word_of_int (- (2 ^ 63))" by (simp add: numeralValue_def)
  then show ?thesis by (simp only: sint_clamped)
qed

lemma numeralValue_not_numeral:
  assumes "intNumeral s = None"
  shows "decimalValue (digitRun s) \<le> maxUint64 \<Longrightarrow> numeralValue s = 0"
    and "decimalValue (digitRun s) > maxUint64 \<Longrightarrow>
      sint (numeralValue s) = (if take 1 s = ''-'' then - (2 ^ 63) else 2 ^ 63 - 1)"
proof -
  show "decimalValue (digitRun s) \<le> maxUint64 \<Longrightarrow> numeralValue s = 0"
    using assms by (simp add: numeralValue_def)
  assume "decimalValue (digitRun s) > maxUint64"
  with assms have "numeralValue s =
      (if take 1 s = ''-'' then word_of_int (- (2 ^ 63)) else word_of_int (2 ^ 63 - 1))"
    by (simp add: numeralValue_def)
  then show "sint (numeralValue s) = (if take 1 s = ''-'' then - (2 ^ 63) else 2 ^ 63 - 1)"
    by (simp only: if_distrib [of sint] sint_clamped)
qed

lemma strToNumSuffix_in_range:
  assumes h: "intNumeral s = Some n \<and> - (2 ^ 63) \<le> n \<and> n < 2 ^ 63"
  shows "strToNumSuffix s mult = word_of_int n
     \<and> sint (strToNumSuffix s mult) = n
     \<and> strToNumSuffix (s @ ''K'') mult = word_of_int n * mult
     \<and> strToNumSuffix (s @ ''k'') mult = word_of_int n * mult
     \<and> strToNumSuffix (s @ ''M'') mult = word_of_int n * (mult * mult)
     \<and> strToNumSuffix (s @ ''m'') mult = word_of_int n * (mult * mult)
     \<and> strToNumSuffix (s @ ''G'') mult = word_of_int n * (mult * mult * mult)
     \<and> strToNumSuffix (s @ ''g'') mult = word_of_int n * (mult * mult * mult)"
proof (intro conjI)
  from h have atoi: "Atoi s = (word_of_int n, None)" by (simp add: Atoi_numeral)
  from h have ne: "s \<noteq> []" using intNumeral_last_digit by blast
  from h show bare: "strToNumSuffix s mult = word_of_int n"
    by (simp add: strToNumSuffix_def suffixSplit_numeral atoi)
  from h have "sint (word_of_int n :: go_int) = n"
    by (simp add: signed_of_int signed_take_bit_int_eq_self)
  with bare show "sint (strToNumSuffix s mult) = n" by simp
  show "strToNumSuffix (s @ ''K'') mult = word_of_int n * mult"
    by (simp add: strToNumSuffix_def suffixSplit_snoc [OF ne] atoi)
  show "strToNumSuffix (s @ ''k'') mult = word_of_int n * mult"
    by (simp add: strToNumSuffix_def suffixSplit_snoc [OF ne] atoi)
  show "strToNumSuffix (s @ ''M'') mult = word_of_int n * (mult * mult)"
    by (simp add: strToNumSuffix_def suffixSplit_snoc [OF ne] atoi)
  show "strToNumSuffix (s @ ''m'') mult = word_of_int n * (mult * mult)"
    by (simp add: strToNumSuffix_def suffixSplit_snoc [OF ne] atoi)
  show "strToNumSuffix (s @ ''G'') mult = word_of_int n * (mult * mult * mult)"
    by (simp add: strToNumSuffix_def suffixSplit_snoc [OF ne] atoi)
  show "strToNumSuffix (s @ ''g'') mult = word_of_int n * (mult * mult * mult)"
    by (simp add: strToNumSuffix_def suffixSplit_snoc [OF ne] atoi)
qed

text \<open>
  C3, as the code has it. For a decimal numeral \<open>s\<close> (optionally signed) whose value \<open>n\<close>
  fits Go's \<open>int\<close>, the result is \<open>n\<close> for the bare numeral and \<open>n\<close> times the
  multiplier once, twice or three times (in Go's wrap-around arithmetic) for the suffixes
  \<open>K/k\<close>, \<open>M/m\<close> and \<open>G/g\<close>. In general the result is the value of the numeric part
  (\<open>numeralValue\<close>: the whole input when it is shorter than two bytes or does not end in
  a suffix letter, the input without its last byte otherwise) times the multiplier as
  often as the suffix says. The value of a numeral beyond the range of \<open>int\<close> is the
  largest or the smallest \<open>int\<close>, by its sign; the value of a numeric part that is no
  numeral is 0, unless the digits it starts with already exceed 64 unsigned bits, when it
  is the largest or smallest \<open>int\<close> as well. With Go's bounds checks on the indexing and
  the slicing written out, no input ends in a panic. The four examples of the
  specification hold.
\<close>

theorem strToNumSuffix_parses:
  "(intNumeral s = Some n \<and> - (2 ^ 63) \<le> n \<and> n < 2 ^ 63 \<longrightarrow>
       strToNumSuffix s mult = word_of_int n
     \<and> sint (strToNumSuffix s mult) = n
     \<and> strToNumSuffix (s @ ''K'') mult = word_of_int n * mult
     \<and> strToNumSuffix (s @ ''k'') mult = word_of_int n * mult
     \<and> strToNumSuffix (s @ ''M'') mult = word_of_int n * (mult * mult)
     \<and> strToNumSuffix (s @ ''m'') mult = word_of_int n * (mult * mult)
     \<and> strToNumSuffix (s @ ''G'') mult = word_of_int n * (mult * mult * mult)
     \<and> strToNumSuffix (s @ ''g'') mult = word_of_int n * (mult * mult * mult))
   \<and> (t \<noteq> [] \<longrightarrow>
       strToNumSuffix (t @ ''K'') mult = numeralValue t * mult
     \<and> strToNumSuffix (t @ ''k'') mult = numeralValue t * mult
     \<and> strToNumSuffix (t @ ''M'') mult = numeralValue t * (mult * mult)
     \<and> strToNumSuffix (t @ ''m'') mult = numeralValue t * (mult * mult)
     \<and> strToNumSuffix (t @ ''G'') mult = numeralValue t * (mult * mult * mult)
     \<and> strToNumSuffix (t @ ''g'') mult = numeralValue t * (mult * mult * mult))
   \<and> (length str < 2
        \<or> last str \<notin> {CHR ''K'', CHR ''k'', CHR ''M'', CHR ''m'', CHR ''G'', CHR ''g''} \<longrightarrow>
       strToNumSuffix str mult = numeralValue str)
   \<and> (intNumeral s = Some n \<and> - (2 ^ 63) \<le> n \<and> n < 2 ^ 63 \<longrightarrow>
        numeralValue s = word_of_int n \<and> sint (numeralValue s) = n)
   \<and> (intNumeral s = Some n \<and> 2 ^ 63 \<le> n \<longrightarrow> sint (numeralValue s) = 2 ^ 63 - 1)
   \<and> (intNumeral s = Some n \<and> n < - (2 ^ 63) \<longrightarrow> sint (numeralValue s) = - (2 ^ 63))
   \<and> (intNumeral s = None \<and> decimalValue (digitRun s) \<le> maxUint64 \<longrightarrow> numeralValue s = 0)
   \<and> (intNumeral s = None \<and> maxUint64 < decimalValue (digitRun s) \<longrightarrow>
        sint (numeralValue s) = (if take 1 s = ''-'' then - (2 ^ 63) else 2 ^ 63 - 1))
   \<and> strToNumSuffix_run str mult = Inr (strToNumSuffix str mult)
   \<and> strToNumSuffix ''10K'' 1000 = 10000
   \<and> strToNumSuffix ''2M'' 1024 = 2097152
   \<and> strToNumSuffix ''5'' mult = 5
   \<and> strToNumSuffix ''abc'' mult = 0"
proof -
  have c1: "intNumeral s = Some n \<and> - (2 ^ 63) \<le> n \<and> n < 2 ^ 63 \<longrightarrow>
       strToNumSuffix s mult = word_of_int n
     \<and> sint (strToNumSuffix s mult) = n
     \<and> strToNumSuffix (s @ ''K'') mult = word_of_int n * mult
     \<and> strToNumSuffix (s @ ''k'') mult = word_of_int n * mult
     \<and> strToNumSuffix (s @ ''M'') mult = word_of_int n * (mult * mult)
     \<and> strToNumSuffix (s @ ''m'') mult = word_of_int n * (mult * mult)
     \<and> strToNumSuffix (s @ ''G'') mult = word_of_int n * (mult * mult * mult)
     \<and> strToNumSuffix (s @ ''g'') mult = word_of_int n * (mult * mult * mult)"
    by (rule impI) (rule strToNumSuffix_in_range)
  have c2: "t \<noteq> [] \<longrightarrow>
       strToNumSuffix (t @ ''K'') mult = numeralValue t * mult
     \<and> strToNumSuffix (t @ ''k'') mult = numeralValue t * mult
     \<and> strToNumSuffix (t @ ''M'') mult = numeralValue t * (mult * mult)
     \<and> strToNumSuffix (t @ ''m'') mult = numeralValue t * (mult * mult)
     \<and> strToNumSuffix (t @ ''G'') mult = numeralValue t * (mult * mult * mult)
     \<and> strToNumSuffix (t @ ''g'') mult = numeralValue t * (mult * mult * mult)"
    using strToNumSuffix_suffixed [of t mult] by blast
  have c3: "length str < 2
        \<or> last str \<notin> {CHR ''K'', CHR ''k'', CHR ''M'', CHR ''m'', CHR ''G'', CHR ''g''} \<longrightarrow>
       strToNumSuffix str mult = numeralValue str"
    by (rule impI) (rule strToNumSuffix_bare)
  have c4: "intNumeral s = Some n \<and> - (2 ^ 63) \<le> n \<and> n < 2 ^ 63 \<longrightarrow>
        numeralValue s = word_of_int n \<and> sint (numeralValue s) = n"
    using numeralValue_in_range [of s n] by blast
  have c5: "intNumeral s = Some n \<and> 2 ^ 63 \<le> n \<longrightarrow> sint (numeralValue s) = 2 ^ 63 - 1"
    using numeralValue_above [of s n] by blast
  have c6: "intNumeral s = Some n \<and> n < - (2 ^ 63) \<longrightarrow> sint (numeralValue s) = - (2 ^ 63)"
    using numeralValue_below [of s n] by blast
  have c7: "intNumeral s = None \<and> decimalValue (digitRun s) \<le> maxUint64 \<longrightarrow> numeralValue s = 0"
    using numeralValue_not_numeral(1) [of s] by blast
  have c8: "intNumeral s = None \<and> maxUint64 < decimalValue (digitRun s) \<longrightarrow>
        sint (numeralValue s) = (if take 1 s = ''-'' then - (2 ^ 63) else 2 ^ 63 - 1)"
    using numeralValue_not_numeral(2) [of s] by blast
  have c9: "strToNumSuffix ''10K'' 1000 = 10000" by (simp add: parser_defs)
  have c10: "strToNumSuffix ''2M'' 1024 = 2097152" by (simp add: parser_defs)
  have c11: "strToNumSuffix ''5'' mult = 5" by (simp add: parser_defs)
  have c12: "strToNumSuffix ''abc'' mult = 0" by (simp add: parser_defs)
  show ?thesis
    by (intro conjI) (rule c1 c2 c3 c4 c5 c6 c7 c8 strToNumSuffix_run_total c9 c10 c11 c12)+
qed

lemmas numeral_defs = intNumeral_def natNumeral_def decimalValue_def isDigit_def digitVal_def
  digitRun_def unsignedPart_def maxUint64_def

theorem strToNumSuffix_parses_witness:
  "intNumeral ''-3'' = Some (- 3) \<and> sint (strToNumSuffix ''-3'' 1024) = - 3
   \<and> strToNumSuffix ''-3G'' 1024 = word_of_int (- 3) * (1024 * 1024 * 1024)
   \<and> strToNumSuffix ''-3G'' 1024 = numeralValue ''-3'' * (1024 * 1024 * 1024)
   \<and> strToNumSuffix ''1.5K'' 1000 = numeralValue ''1.5'' * 1000
   \<and> last ''abc'' \<notin> {CHR ''K'', CHR ''k'', CHR ''M'', CHR ''m'', CHR ''G'', CHR ''g''}
   \<and> strToNumSuffix ''abc'' 1024 = numeralValue ''abc''
   \<and> intNumeral ''99999999999999999999'' = Some 99999999999999999999
   \<and> sint (numeralValue ''99999999999999999999'') = 2 ^ 63 - 1
   \<and> intNumeral ''-99999999999999999999'' = Some (- 99999999999999999999)
   \<and> sint (numeralValue ''-99999999999999999999'') = - (2 ^ 63)
   \<and> intNumeral ''1.5'' = None \<and> decimalValue (digitRun ''1.5'') \<le> maxUint64
   \<and> numeralValue ''1.5'' = 0
   \<and> intNumeral ''99999999999999999999x'' = None
   \<and> maxUint64 < decimalValue (digitRun ''99999999999999999999x'')
   \<and> sint (numeralValue ''99999999999999999999x'') = 2 ^ 63 - 1"
proof -
  have h1: "intNumeral ''-3'' = Some (- 3)" by (simp add: numeral_defs)
  have h3: "last ''abc'' \<notin> {CHR ''K'', CHR ''k'', CHR ''M'', CHR ''m'', CHR ''G'', CHR ''g''}"
    by simp
  have h4: "intNumeral ''99999999999999999999'' = Some 99999999999999999999"
    by (simp add: numeral_defs)
  have h5: "intNumeral ''-99999999999999999999'' = Some (- 99999999999999999999)"
    by (simp add: numeral_defs)
  have h6: "intNumeral ''1.5'' = None" "decimalValue (digitRun ''1.5'') \<le> maxUint64"
    by (simp_all add: numeral_defs)
  have h7: "intNumeral ''99999999999999999999x'' = None"
    "maxUint64 < decimalValue (digitRun ''99999999999999999999x'')"
    by (simp_all add: numeral_defs)
  have r1: "(- (2 ^ 63) :: int) \<le> - 3" "(- 3 :: int) < 2 ^ 63"
    "(2 ^ 63 :: int) \<le> 99999999999999999999" "(- 99999999999999999999 :: int) < - (2 ^ 63)"
    by simp_all
  have t1: "''-3'' \<noteq> []" "''1.5'' \<noteq> []" by simp_all
  have x: "take 1 ''99999999999999999999x'' \<noteq> ''-''" by simp
  have a1: "''-3'' @ ''G'' = ''-3G''" "''1.5'' @ ''K'' = ''1.5K''" by simp_all
  note i1 = strToNumSuffix_parses [of "''-3''" "- 3" 1024 "''-3''" "''abc''"]
  note i2 = strToNumSuffix_parses [of "''99999999999999999999''" 99999999999999999999 1000
      "''1.5''" "''abc''"]
  note i3 = strToNumSuffix_parses [of "''-99999999999999999999''" "- 99999999999999999999" 1000
      "''1.5''" "''abc''"]
  note i4 = strToNumSuffix_parses [of "''1.5''" 0 1000 "''1.5''" "''abc''"]
  note i5 = strToNumSuffix_parses [of "''99999999999999999999x''" 0 1000 "''1.5''" "''abc''"]
  from i1 h1 r1 t1 h3 have c1: "sint (strToNumSuffix ''-3'' 1024) = - 3"
    "strToNumSuffix (''-3'' @ ''G'') 1024 = word_of_int (- 3) * (1024 * 1024 * 1024)"
    "strToNumSuffix (''-3'' @ ''G'') 1024 = numeralValue ''-3'' * (1024 * 1024 * 1024)"
    "strToNumSuffix ''abc'' 1024 = numeralValue ''abc''"
    by blast+
  from i2 h4 r1 t1 have c2: "sint (numeralValue ''99999999999999999999'') = 2 ^ 63 - 1"
    "strToNumSuffix (''1.5'' @ ''K'') 1000 = numeralValue ''1.5'' * 1000"
    by blast+
  from i3 h5 r1 have c3: "sint (numeralValue ''-99999999999999999999'') = - (2 ^ 63)"
    by blast
  from i4 h6 have c4: "numeralValue ''1.5'' = 0" by blast
  from i5 h7 have "sint (numeralValue ''99999999999999999999x'') =
      (if take 1 ''99999999999999999999x'' = ''-'' then - (2 ^ 63) else 2 ^ 63 - 1)"
    by blast
  with x have c5: "sint (numeralValue ''99999999999999999999x'') = 2 ^ 63 - 1"
    by (simp only: if_False)
  show ?thesis
    using h1 h3 h4 h5 h6 h7 c1 [unfolded a1] c2 [unfolded a1] c3 c4 c5
    by (intro conjI)
qed

text \<open>
  Where the claim as first stated fails. A decimal numeral beyond the range of \<open>int\<close> is
  neither returned as it stands nor turned into 0: \<open>Atoi\<close> reports a range error with the
  largest (or smallest) \<open>int\<close>, the error is dropped and the clamped value is the result.
  Nor does every input that is no numeral give 0: twenty nines followed by a letter run
  into the range error before the letter is read.
\<close>

theorem strToNumSuffix_out_of_range:
  "intNumeral ''99999999999999999999'' = Some 99999999999999999999
   \<and> strToNumSuffix ''99999999999999999999'' 1000 = 9223372036854775807
   \<and> sint (strToNumSuffix ''99999999999999999999'' 1000) = 9223372036854775807
   \<and> strToNumSuffix ''99999999999999999999'' 1000 \<noteq> 0
   \<and> intNumeral ''-99999999999999999999'' = Some (- 99999999999999999999)
   \<and> sint (strToNumSuffix ''-99999999999999999999'' 1000) = - 9223372036854775808
   \<and> intNumeral ''99999999999999999999x'' = None
   \<and> strToNumSuffix ''99999999999999999999x'' 1000 = 9223372036854775807"
proof -
  have "intNumeral ''99999999999999999999'' = Some 99999999999999999999"
    by (simp add: numeral_defs)
  moreover have v: "strToNumSuffix ''99999999999999999999'' 1000 = 9223372036854775807"
    by (simp add: parser_defs)
  moreover have "sint (9223372036854775807 :: go_int) = 9223372036854775807" by simp
  moreover have "intNumeral ''-99999999999999999999'' = Some (- 99999999999999999999)"
    by (simp add: numeral_defs)
  moreover have "strToNumSuffix ''-99999999999999999999'' 1000 = - 9223372036854775808"
    by (simp add: parser_defs)
  moreover have "sint (- 9223372036854775808 :: go_int) = - 9223372036854775808" by simp
  moreover have "intNumeral ''99999999999999999999x'' = None"
    by (simp add: numeral_defs)
  moreover have "strToNumSuffix ''99999999999999999999x'' 1000 = 9223372036854775807"
    by (simp add: parser_defs)
  ultimately show ?thesis by simp
qed

section \<open>Properties of the level checks and of the loader\<close>

lemma isLevelEnabled_set:
  "isLevelEnabled Global lvl \<longleftrightarrow> (\<exists>(name, filt)\<in>set Global. Filter.Level filt \<le> lvl)"
  by (induction Global lvl rule: isLevelEnabled.induct) auto

lemma convertLevel_unknown:
  "level \<notin> {''ACCESS'', ''FINEST'', ''FINE'', ''DEBUG'', ''TRACE'', ''INFO'', ''WARNING'', ''ERROR'',
      ''CRITICAL''}
   \<Longrightarrow> convertLevel L level filename = ([Stderr_Error (UnknownValue ''level'' filename level)], 0, True)"
  by (simp add: convertLevel_def)

lemma convertLevel_bad_iff:
  "snd (snd (convertLevel L level filename)) \<longleftrightarrow>
   level \<notin> {''ACCESS'', ''FINEST'', ''FINE'', ''DEBUG'', ''TRACE'', ''INFO'', ''WARNING'', ''ERROR'',
      ''CRITICAL''}"
  by (simp add: convertLevel_def)

text \<open>The body of the loop, case by case.\<close>

lemma loadFilter_cases:
  assumes "requiredChildren filename x = (out0, bad0, enabled)"
    and "convertLevel L (xmlFilter.Level x) filename = (out1, lvl, bad)"
  shows "loadFilter L fs filename log x =
     (if bad then (out0 @ out1, Exit 1)
      else case switchType fs filename x enabled of
             None \<Rightarrow> (out0 @ out1 @ [Stderr_Error (UnknownFilterType filename (Type x))], Exit 1)
           | Some (outw, filt, good) \<Rightarrow>
               if \<not> good then (out0 @ out1 @ outw, Exit 1)
               else if \<not> enabled then (out0 @ out1 @ outw, Returns log)
               else (out0 @ out1 @ outw,
                     assignEntry log (Tag x)
                       \<lparr>Level = lvl, LogWriter = filt, Excludes = Exclude x\<rparr>))"
  using assms by (simp add: loadFilter_def split: option.splits prod.splits)

lemma loadFilter_exit_code:
  assumes "loadFilter L fs filename log x = (out, Exit code)" shows "code = 1"
proof -
  obtain out0 bad0 enabled where a: "requiredChildren filename x = (out0, bad0, enabled)"
    by (cases "requiredChildren filename x") auto
  obtain out1 lvl bad where b: "convertLevel L (xmlFilter.Level x) filename = (out1, lvl, bad)"
    by (cases "convertLevel L (xmlFilter.Level x) filename") auto
  from assms show ?thesis
    unfolding loadFilter_cases [OF a b]
    by (auto simp: assignEntry_def split: if_splits option.splits prod.splits)
qed

lemma loadFilter_bad_level:
  assumes "snd (snd (convertLevel L (xmlFilter.Level x) filename))"
  shows "snd (loadFilter L fs filename log x) = Exit 1"
proof -
  obtain out0 bad0 enabled where a: "requiredChildren filename x = (out0, bad0, enabled)"
    by (cases "requiredChildren filename x") auto
  obtain out1 lvl bad where b: "convertLevel L (xmlFilter.Level x) filename = (out1, lvl, bad)"
    by (cases "convertLevel L (xmlFilter.Level x) filename") auto
  with assms have "bad" by simp
  then show ?thesis unfolding loadFilter_cases [OF a b] by simp
qed

lemma loadFilter_Some:
  assumes "loadFilter L fs filename (Some entries) x = (out, r)"
  shows "r \<noteq> Panics \<and> (\<forall>l. r = Returns l \<longrightarrow> (\<exists>entries'. l = Some entries'))"
proof -
  obtain out0 bad0 enabled where a: "requiredChildren filename x = (out0, bad0, enabled)"
    by (cases "requiredChildren filename x") auto
  obtain out1 lvl bad where b: "convertLevel L (xmlFilter.Level x) filename = (out1, lvl, bad)"
    by (cases "convertLevel L (xmlFilter.Level x) filename") auto
  from assms show ?thesis
    unfolding loadFilter_cases [OF a b]
    by (auto simp: assignEntry_def split: if_splits option.splits prod.splits)
qed

lemma loadFilters_fatal:
  assumes "\<And>log. snd (loadFilter L fs filename log x) = Exit 1" and "x \<in> set xs"
  shows "snd (loadFilters L fs filename (Some entries) xs) = Exit 1"
  using assms(2)
proof (induction xs arbitrary: entries)
  case Nil then show ?case by simp
next
  case (Cons y ys)
  obtain out r where y: "loadFilter L fs filename (Some entries) y = (out, r)"
    by (cases "loadFilter L fs filename (Some entries) y")
  note some = loadFilter_Some [OF y]
  show ?case
  proof (cases r)
    case (Exit code)
    with y have "code = 1" by (auto dest: loadFilter_exit_code)
    with y Exit show ?thesis by simp
  next
    case Panics
    with some show ?thesis by simp
  next
    case (Returns log')
    with some obtain entries' where l: "log' = Some entries'" by blast
    from y Returns assms(1) [of "Some entries"] have "x \<noteq> y" by auto
    with Cons.prems have "x \<in> set ys" by simp
    then have "snd (loadFilters L fs filename (Some entries') ys) = Exit 1" by (rule Cons.IH)
    with y Returns l show ?thesis
      by (cases "loadFilters L fs filename (Some entries') ys") simp
  qed
qed

lemma LoadConfiguration_Parsed:
  "snd (LoadConfiguration L fs (Some entries) filename (Parsed filters)) =
     snd (loadFilters L fs filename (Some []) filters)"
  by (simp add: LoadConfiguration_def Close_def split: prod.splits)

text \<open>
  C4. The level check is true exactly when some filter of the logger has a threshold at
  or below the level, whatever the order in which the map is visited; on a logger with no
  filter it is false. The public checks are this check at their level.
\<close>

theorem isLevelEnabled_iff_some_threshold:
  "(isLevelEnabled Global lvl \<longleftrightarrow> (\<exists>(name, filt)\<in>set Global. Filter.Level filt \<le> lvl))
   \<and> \<not> isLevelEnabled [] lvl
   \<and> (IsFinestEnabled L Global \<longleftrightarrow> (\<exists>(name, filt)\<in>set Global. Filter.Level filt \<le> FINEST L))
   \<and> (IsFineEnabled L Global \<longleftrightarrow> (\<exists>(name, filt)\<in>set Global. Filter.Level filt \<le> FINE L))
   \<and> (IsDebugEnabled L Global \<longleftrightarrow> (\<exists>(name, filt)\<in>set Global. Filter.Level filt \<le> DEBUG L))
   \<and> (IsTraceEnabled L Global \<longleftrightarrow> (\<exists>(name, filt)\<in>set Global. Filter.Level filt \<le> TRACE L))
   \<and> (IsInfoEnabled L Global \<longleftrightarrow> (\<exists>(name, filt)\<in>set Global. Filter.Level filt \<le> INFO L))
   \<and> (IsWarnEnabled L Global \<longleftrightarrow> (\<exists>(name, filt)\<in>set Global. Filter.Level filt \<le> WARNING L))
   \<and> (IsErrorEnabled L Global \<longleftrightarrow> (\<exists>(name, filt)\<in>set Global. Filter.Level filt \<le> ERROR L))"
  unfolding IsFinestEnabled_def IsFineEnabled_def IsDebugEnabled_def IsTraceEnabled_def
    IsInfoEnabled_def IsWarnEnabled_def IsErrorEnabled_def
  by (simp add: isLevelEnabled_set)

text \<open>
  C8. \<open>convertLevel\<close> maps each of the nine names to its constant without complaint and
  flags every other string as bad, with the message about the unknown value. A
  configuration in which some filter names an unknown level makes \<open>LoadConfiguration\<close>
  end the process with exit code 1.
\<close>

theorem convertLevel_nine_names:
  "convertLevel L ''ACCESS'' filename = ([], ACCESS L, False)
   \<and> convertLevel L ''FINEST'' filename = ([], FINEST L, False)
   \<and> convertLevel L ''FINE'' filename = ([], FINE L, False)
   \<and> convertLevel L ''DEBUG'' filename = ([], DEBUG L, False)
   \<and> convertLevel L ''TRACE'' filename = ([], TRACE L, False)
   \<and> convertLevel L ''INFO'' filename = ([], INFO L, False)
   \<and> convertLevel L ''WARNING'' filename = ([], WARNING L, False)
   \<and> convertLevel L ''ERROR'' filename = ([], ERROR L, False)
   \<and> convertLevel L ''CRITICAL'' filename = ([], CRITICAL L, False)
   \<and> (level \<notin> {''ACCESS'', ''FINEST'', ''FINE'', ''DEBUG'', ''TRACE'', ''INFO'', ''WARNING'',
          ''ERROR'', ''CRITICAL''} \<longrightarrow>
        convertLevel L level filename =
          ([Stderr_Error (UnknownValue ''level'' filename level)], 0, True))
   \<and> ((\<exists>x\<in>set filters. xmlFilter.Level x \<notin> {''ACCESS'', ''FINEST'', ''FINE'', ''DEBUG'',
          ''TRACE'', ''INFO'', ''WARNING'', ''ERROR'', ''CRITICAL''}) \<longrightarrow>
        snd (LoadConfiguration L fs (Some entries) filename (Parsed filters)) = Exit 1)"
proof -
  have names: "convertLevel L ''ACCESS'' filename = ([], ACCESS L, False)"
    "convertLevel L ''FINEST'' filename = ([], FINEST L, False)"
    "convertLevel L ''FINE'' filename = ([], FINE L, False)"
    "convertLevel L ''DEBUG'' filename = ([], DEBUG L, False)"
    "convertLevel L ''TRACE'' filename = ([], TRACE L, False)"
    "convertLevel L ''INFO'' filename = ([], INFO L, False)"
    "convertLevel L ''WARNING'' filename = ([], WARNING L, False)"
    "convertLevel L ''ERROR'' filename = ([], ERROR L, False)"
    "convertLevel L ''CRITICAL'' filename = ([], CRITICAL L, False)"
    by (simp_all add: convertLevel_def)
  have fatal: "snd (LoadConfiguration L fs (Some entries) filename (Parsed filters)) = Exit 1"
    if "x \<in> set filters" and "xmlFilter.Level x \<notin> {''ACCESS'', ''FINEST'', ''FINE'', ''DEBUG'',
          ''TRACE'', ''INFO'', ''WARNING'', ''ERROR'', ''CRITICAL''}" for x
  proof -
    from that(2) have "snd (snd (convertLevel L (xmlFilter.Level x) filename))"
      by (rule convertLevel_bad_iff [THEN iffD2])
    then have "\<And>log. snd (loadFilter L fs filename log x) = Exit 1"
      by (rule loadFilter_bad_level)
    then have "snd (loadFilters L fs filename (Some []) filters) = Exit 1"
      using that(1) by (rule loadFilters_fatal)
    then show ?thesis by (simp only: LoadConfiguration_Parsed)
  qed
  show ?thesis
    using names convertLevel_unknown [of level L filename] fatal by blast
qed

theorem convertLevel_nine_names_witness:
  "convertLevel specLevels ''VERBOSE'' ''log4go.xml'' =
     ([Stderr_Error (UnknownValue ''level'' ''log4go.xml'' ''VERBOSE'')], 0, True)
   \<and> snd (LoadConfiguration specLevels exampleFs (Some []) ''log4go.xml''
        (Parsed [\<lparr>Enabled = ''true'', Tag = ''stdout'', Level = ''VERBOSE'', Type = ''console'',
                  Property = [], Exclude = []\<rparr>])) = Exit 1"
  using convertLevel_nine_names [of specLevels "''log4go.xml''" "''VERBOSE''"
      "[\<lparr>Enabled = ''true'', Tag = ''stdout'', Level = ''VERBOSE'', Type = ''console'',
         Property = [], Exclude = []\<rparr>]" exampleFs "[]"]
  by simp

section \<open>Properties of the property parsers and of a reload\<close>






















lemma set_update_subset: "set (AList.update k v al) \<subseteq> insert (k, v) (set al)"
  by (induction al) auto

lemma convertLevel_good:
  "convertLevel L level filename = (out, lvl, False) \<Longrightarrow> out = []"
  by (auto simp: convertLevel_def split: if_splits)

lemma loadFilter_returns:
  assumes "loadFilter L fs filename (Some entries) x = (out, Returns log')"
  shows "log' = Some entries \<or>
     (\<exists>filt. log' = Some (AList.update (Tag x) filt entries) \<and> declares L filename x (Tag x, filt))"
proof -
  have a: "requiredChildren filename x =
      (fst (requiredChildren filename x), fst (snd (requiredChildren filename x)),
       Enabled x \<noteq> [] \<and> Enabled x \<noteq> ''false'')"
    by (simp add: requiredChildren_def)
  obtain out1 lvl bad where b: "convertLevel L (xmlFilter.Level x) filename = (out1, lvl, bad)"
    by (cases "convertLevel L (xmlFilter.Level x) filename") auto
  show ?thesis
  proof (cases bad)
    case True
    with assms show ?thesis unfolding loadFilter_cases [OF a b] by simp
  next
    case False
    with b have "out1 = []" by (auto dest: convertLevel_good)
    with b False have c: "convertLevel L (xmlFilter.Level x) filename = ([], lvl, False)" by simp
    from assms False show ?thesis
      unfolding loadFilter_cases [OF a b]
      by (auto simp: assignEntry_def declares_def c split: if_splits option.splits prod.splits)
  qed
qed

lemma loadFilters_entries:
  "loadFilters L fs filename (Some entries) xs = (out, Returns log')
   \<Longrightarrow> \<exists>entries'. log' = Some entries' \<and>
         (\<forall>e\<in>set entries'. e \<in> set entries \<or> (\<exists>x\<in>set xs. declares L filename x e))"
proof (induction xs arbitrary: entries out)
  case Nil then show ?case by auto
next
  case (Cons y ys)
  obtain o1 r where y: "loadFilter L fs filename (Some entries) y = (o1, r)"
    by (cases "loadFilter L fs filename (Some entries) y")
  show ?case
  proof (cases r)
    case (Exit code)
    with y Cons.prems show ?thesis by simp
  next
    case Panics
    with y Cons.prems show ?thesis by simp
  next
    case (Returns log1)
    from loadFilter_returns [OF y [unfolded Returns]]
    obtain entries1 where l1: "log1 = Some entries1"
      and step: "\<forall>e\<in>set entries1. e \<in> set entries \<or> declares L filename y e"
    proof (elim disjE exE conjE)
      assume "log1 = Some entries"
      then show ?thesis using that [of entries] by simp
    next
      fix filt
      assume l: "log1 = Some (AList.update (Tag y) filt entries)"
        and d: "declares L filename y (Tag y, filt)"
      have "\<forall>e\<in>set (AList.update (Tag y) filt entries). e \<in> set entries \<or> declares L filename y e"
        using set_update_subset [of "Tag y" filt entries] d by blast
      with l show ?thesis using that by blast
    qed
    obtain o2 r2 where ys: "loadFilters L fs filename (Some entries1) ys = (o2, r2)"
      by (cases "loadFilters L fs filename (Some entries1) ys")
    with y Returns l1 Cons.prems have r2: "r2 = Returns log'" by simp
    from Cons.IH [OF ys [unfolded r2]]
    obtain entries' where l': "log' = Some entries'"
      and ih: "\<forall>e\<in>set entries'. e \<in> set entries1 \<or> (\<exists>x\<in>set ys. declares L filename x e)"
      by blast
    have "\<forall>e\<in>set entries'. e \<in> set entries \<or> (\<exists>x\<in>set (y # ys). declares L filename x e)"
    proof
      fix e assume "e \<in> set entries'"
      with ih have "e \<in> set entries1 \<or> (\<exists>x\<in>set ys. declares L filename x e)" by blast
      then show "e \<in> set entries \<or> (\<exists>x\<in>set (y # ys). declares L filename x e)"
      proof
        assume "e \<in> set entries1"
        with step have "e \<in> set entries \<or> declares L filename y e" by blast
        then show ?thesis by auto
      next
        assume "\<exists>x\<in>set ys. declares L filename x e"
        then show ?thesis by auto
      qed
    qed
    with l' show ?thesis by blast
  qed
qed






lemma LoadConfiguration_entries:
  assumes "LoadConfiguration L fs (Some entries) filename (Parsed filters) = (out, Returns log')"
  shows "\<exists>entries'. log' = Some entries' \<and>
     (\<forall>e\<in>set entries'. \<exists>x\<in>set filters. declares L filename x e)"
proof -
  obtain o1 r where l: "loadFilters L fs filename (Some []) filters = (o1, r)"
    by (cases "loadFilters L fs filename (Some []) filters")
  with assms have "r = Returns log'"
    by (simp add: LoadConfiguration_def Close_def)
  with l have "loadFilters L fs filename (Some []) filters = (o1, Returns log')" by simp
  from loadFilters_entries [OF this] show ?thesis by simp
qed

lemma LoadConfiguration_starts:
  "take (Suc (length entries)) (fst (LoadConfiguration L fs (Some entries) filename src)) =
     Stdout_Load filename # map (\<lambda>(name, filt). WriterClosed (LogWriter filt)) entries"
  by (cases src) (simp_all add: LoadConfiguration_def Close_def split_beta)

lemma LoadConfiguration_then:
  "drop (Suc (length entries)) (fst (LoadConfiguration L fs (Some entries) filename src)) =
     drop 1 (fst (LoadConfiguration L fs (Some []) filename src))
   \<and> snd (LoadConfiguration L fs (Some entries) filename src) =
     snd (LoadConfiguration L fs (Some []) filename src)"
  by (cases src) (simp_all add: LoadConfiguration_def Close_def split_beta)


lemmas loader_defs = LoadConfiguration_def Close_def loadFilter_def requiredChildren_def
  convertLevel_def switchType_def assignEntry_def xmlToConsoleLogWriter_def
  xmlToFileLogWriter_def xmlToXMLLogWriter_def xmlToSocketLogWriter_def fileProperty_def
  xmlProperty_step_def socketProperty_def consoleProperty_def specLevels_def exampleFs_def
  exampleDir_def Trim_def blanks_def



text \<open>
  C8 at a configuration whose only filter has no \<open><tag>\<close>: the load prints the error
  about the missing child and then installs the filter under the empty name and returns;
  with no \<open>enabled\<close> attribute it prints the error, installs nothing and returns.
  Neither ends the process.
\<close>

theorem missing_required_child_is_not_fatal:
  "LoadConfiguration specLevels exampleFs (Some []) ''log4go.xml''
     (Parsed [\<lparr>Enabled = ''true'', Tag = [], Level = ''DEBUG'', Type = ''console'',
               Property = [], Exclude = []\<rparr>])
   = ([Stdout_Load ''log4go.xml'', Stderr_Error (MissingChild ''tag'' ''log4go.xml'')],
      Returns (Some [([], \<lparr>Level = 2, LogWriter = Some NewConsoleLogWriter, Excludes = []\<rparr>)]))
   \<and> LoadConfiguration specLevels exampleFs (Some []) ''log4go.xml''
     (Parsed [\<lparr>Enabled = [], Tag = ''stdout'', Level = ''DEBUG'', Type = ''console'',
               Property = [], Exclude = []\<rparr>])
   = ([Stdout_Load ''log4go.xml'', Stderr_Error (MissingAttribute ''enabled'' ''log4go.xml'')],
      Returns (Some []))"
  by (simp add: loader_defs)

text \<open>
  C9. A load on a logger with entries first prints its line and closes the writer of
  every entry, in that order and before anything else; what follows, and how the call
  ends, is what a load on the empty logger does. When the call returns, every entry of
  the logger is declared by an enabled filter of the file, with that filter's tag,
  level and excludes: nothing of the previous configuration is left.
\<close>

theorem LoadConfiguration_replaces:
  "take (Suc (length entries)) (fst (LoadConfiguration L fs (Some entries) filename src)) =
     Stdout_Load filename # map (\<lambda>(name, filt). WriterClosed (LogWriter filt)) entries
   \<and> drop (Suc (length entries)) (fst (LoadConfiguration L fs (Some entries) filename src)) =
     drop 1 (fst (LoadConfiguration L fs (Some []) filename src))
   \<and> snd (LoadConfiguration L fs (Some entries) filename src) =
     snd (LoadConfiguration L fs (Some []) filename src)
   \<and> fst (Close (Some entries)) = map (\<lambda>(name, filt). WriterClosed (LogWriter filt)) entries
   \<and> snd (Close (Some entries)) = Some []
   \<and> (LoadConfiguration L fs (Some entries) filename (Parsed filters) = (out, Returns log') \<longrightarrow>
        (\<exists>entries'. log' = Some entries' \<and>
           (\<forall>e\<in>set entries'. \<exists>x\<in>set filters. declares L filename x e)))
   \<and> snd (LoadConfiguration L fs (Some entries) filename OpenFails) = Exit 1
   \<and> snd (LoadConfiguration L fs (Some entries) filename ReadFails) = Exit 1
   \<and> snd (LoadConfiguration L fs (Some entries) filename ParseFails) = Exit 1"
proof -
  have c: "LoadConfiguration L fs (Some entries) filename (Parsed filters) = (out, Returns log') \<longrightarrow>
        (\<exists>entries'. log' = Some entries' \<and>
           (\<forall>e\<in>set entries'. \<exists>x\<in>set filters. declares L filename x e))"
    by (rule impI) (rule LoadConfiguration_entries)
  have d: "fst (Close (Some entries)) = map (\<lambda>(name, filt). WriterClosed (LogWriter filt)) entries"
    "snd (Close (Some entries)) = Some []"
    by (simp_all add: Close_def)
  have e: "snd (LoadConfiguration L fs (Some entries) filename OpenFails) = Exit 1"
    "snd (LoadConfiguration L fs (Some entries) filename ReadFails) = Exit 1"
    "snd (LoadConfiguration L fs (Some entries) filename ParseFails) = Exit 1"
    by (simp_all add: LoadConfiguration_def Close_def)
  show ?thesis
    using LoadConfiguration_starts [of entries L fs filename src]
      LoadConfiguration_then [of entries L fs filename src] c d e
    by (intro conjI) (erule conjunct1 conjunct2 | assumption)+
qed

theorem LoadConfiguration_replaces_witness:
  "LoadConfiguration specLevels exampleFs
     (Some [(''old'', \<lparr>Level = 0, LogWriter = Some NewConsoleLogWriter, Excludes = []\<rparr>)])
     ''log4go.xml''
     (Parsed [\<lparr>Enabled = ''true'', Tag = ''stdout'', Level = ''INFO'', Type = ''console'',
               Property = [], Exclude = [''noisy'']\<rparr>])
   = ([Stdout_Load ''log4go.xml'', WriterClosed (Some NewConsoleLogWriter)],
      Returns (Some [(''stdout'',
        \<lparr>Level = 4, LogWriter = Some NewConsoleLogWriter, Excludes = [''noisy'']\<rparr>)]))
   \<and> (\<exists>entries'.
        Some [(''stdout'', \<lparr>Level = 4, LogWriter = Some NewConsoleLogWriter, Excludes = [''noisy'']\<rparr>)]
          = Some entries'
        \<and> (\<forall>e\<in>set entries'. \<exists>x\<in>set [\<lparr>Enabled = ''true'', Tag = ''stdout'', Level = ''INFO'',
               Type = ''console'', Property = [], Exclude = [''noisy'']\<rparr>].
               declares specLevels ''log4go.xml'' x e))"
proof -
  have run: "LoadConfiguration specLevels exampleFs
     (Some [(''old'', \<lparr>Level = 0, LogWriter = Some NewConsoleLogWriter, Excludes = []\<rparr>)])
     ''log4go.xml''
     (Parsed [\<lparr>Enabled = ''true'', Tag = ''stdout'', Level = ''INFO'', Type = ''console'',
               Property = [], Exclude = [''noisy'']\<rparr>])
   = ([Stdout_Load ''log4go.xml'', WriterClosed (Some NewConsoleLogWriter)],
      Returns (Some [(''stdout'',
        \<lparr>Level = 4, LogWriter = Some NewConsoleLogWriter, Excludes = [''noisy'']\<rparr>)]))"
    by (simp add: loader_defs)
  from LoadConfiguration_replaces [of
      "[(''old'', \<lparr>Level = 0, LogWriter = Some NewConsoleLogWriter, Excludes = []\<rparr>)]"
      specLevels exampleFs "''log4go.xml''" _
      "[\<lparr>Enabled = ''true'', Tag = ''stdout'', Level = ''INFO'', Type = ''console'',
               Property = [], Exclude = [''noisy'']\<rparr>]"
      "[Stdout_Load ''log4go.xml'', WriterClosed (Some NewConsoleLogWriter)]"
      "Some [(''stdout'',
        \<lparr>Level = 4, LogWriter = Some NewConsoleLogWriter, Excludes = [''noisy'']\<rparr>)]"] run
  show ?thesis by blast
qed

end
